theory Spec2Isabelle
  imports Main "HOL-Library.Sublist" "HOL-Library.Word"
begin

unbundle bit_operations_syntax

section \<open>Go library functions used by the provisioner\<close>

text \<open>
  Go strings are byte sequences; they are modelled as \<open>string\<close> (a list of 8-bit
  characters).  The provisioner runs on Linux (the image is built from \<open>golang:1.14\<close>), where
  \<open>filepath.Clean\<close> and \<open>path.Clean\<close> are the same function.
\<close>

subsection \<open>strings.Split, strings.HasPrefix, strings.Join, strings.ToLower\<close>

text \<open>
  \<open>strings.Split(s, sep)\<close> for a one-byte separator: the loop of \<open>genSplit\<close> cuts \<open>s\<close> at
  the first separator (\<open>m := Index(s, sep)\<close>), keeps \<open>s[:m]\<close>, continues with \<open>s[m+1:]\<close>, and
  stops with the rest when no separator is left.
\<close>

function Split :: "string \<Rightarrow> char \<Rightarrow> string list" where
  "Split s sep =
     (if sep \<in> set s
      then takeWhile (\<lambda>x. x \<noteq> sep) s # Split (tl (dropWhile (\<lambda>x. x \<noteq> sep) s)) sep
      else [s])"
  by pat_completeness auto
termination
proof (relation "measure (\<lambda>(s, sep). length s)")
  show "wf (measure (\<lambda>(s, sep). length s))" by simp
next
  fix s :: string and sep :: char
  assume "sep \<in> set s"
  then have "dropWhile (\<lambda>x. x \<noteq> sep) s \<noteq> []" by (simp add: dropWhile_eq_Nil_conv)
  then have "length (tl (dropWhile (\<lambda>x. x \<noteq> sep) s)) < length (dropWhile (\<lambda>x. x \<noteq> sep) s)"
    by (cases "dropWhile (\<lambda>x. x \<noteq> sep) s") simp_all
  also have "\<dots> \<le> length s" by (rule length_dropWhile_le)
  finally show "((tl (dropWhile (\<lambda>x. x \<noteq> sep) s), sep), (s, sep)) \<in> measure (\<lambda>(s, sep). length s)"
    by simp
qed

declare Split.simps [simp del]

definition HasPrefix :: "string \<Rightarrow> string \<Rightarrow> bool" where
  "HasPrefix s pre = (length s \<ge> length pre \<and> take (length pre) s = pre)"

fun strings_Join :: "string list \<Rightarrow> string \<Rightarrow> string" where
  "strings_Join [] sep = []"
| "strings_Join [a] sep = a"
| "strings_Join (a # b # rest) sep = a @ sep @ strings_Join (b # rest) sep"

text \<open>
  \<open>strings.ToLower\<close>.  A string of ASCII bytes only (no byte from \<open>utf8.RuneSelf\<close> = 128
  on) is returned as it is when it has no upper-case letter, and otherwise with 32 added to
  each byte from \<open>A\<close> to \<open>Z\<close>.  Any other string goes through
  \<open>Map(unicode.ToLower, s)\<close>, which decodes UTF-8 and maps every code point by the case
  tables of Go's \<open>unicode\<close> package; those tables are no part of the repository, so the
  result of that call is the parameter \<open>unicode_lower\<close>.
\<close>

definition lower_byte :: "char \<Rightarrow> char" where
  "lower_byte c =
     (if of_char (CHR ''A'') \<le> (of_char c :: nat) \<and> (of_char c :: nat) \<le> of_char (CHR ''Z'')
      then char_of ((of_char c :: nat) + 32) else c)"

definition isASCII :: "string \<Rightarrow> bool" where
  "isASCII s = list_all (\<lambda>c. (of_char c :: nat) < 128) s"

definition hasUpper :: "string \<Rightarrow> bool" where
  "hasUpper s =
     list_ex (\<lambda>c. of_char (CHR ''A'') \<le> (of_char c :: nat) \<and> (of_char c :: nat) \<le> of_char (CHR ''Z'')) s"

definition ToLower :: "(string \<Rightarrow> string) \<Rightarrow> string \<Rightarrow> string" where
  "ToLower unicode_lower s =
     (if isASCII s then (if \<not> hasUpper s then s else map lower_byte s)
      else unicode_lower s)"

subsection \<open>strconv.ParseBool\<close>

definition ParseBool :: "string \<Rightarrow> bool option" where
  "ParseBool str =
     (if str \<in> {''1'', ''t'', ''T'', ''TRUE'', ''true'', ''True''} then Some True
      else if str \<in> {''0'', ''f'', ''F'', ''FALSE'', ''false'', ''False''} then Some False
      else None)"

subsection \<open>path.Clean and path.Join\<close>

text \<open>
  The backtracking loop of \<open>Clean\<close> for a \<open>..\<close> element, after \<open>out.w--\<close>:
  \<open>for out.w > dotdot && out.index(out.w) != '/' { out.w-- }\<close>.  The buffer keeps its old
  bytes above \<open>w\<close>, so the loop reads the untruncated buffer.
\<close>

function backtrack :: "string \<Rightarrow> nat \<Rightarrow> nat \<Rightarrow> nat" where
  "backtrack buf dotdot w =
     (if w > dotdot \<and> buf ! w \<noteq> CHR ''/'' then backtrack buf dotdot (w - 1) else w)"
  by pat_completeness auto
termination
  by (relation "measure (\<lambda>(buf, dotdot, w). w)") auto

declare backtrack.simps [simp del]

text \<open>
  The main loop of \<open>Clean\<close>.  The second argument is the unread rest of the path
  (\<open>path[r:]\<close>), \<open>out\<close> is the written part of the output buffer (\<open>out.w = length out\<close>), and
  \<open>dotdot\<close> is the index where backtracking must stop.  The branches are the four cases of the
  \<open>switch\<close> in source order: an empty element, a \<open>.\<close> element, a \<open>..\<close> element, a real element.
\<close>

function clean_loop :: "bool \<Rightarrow> string \<Rightarrow> string \<Rightarrow> nat \<Rightarrow> string" where
  "clean_loop rooted [] out dotdot = out"
| "clean_loop rooted (c # cs) out dotdot =
     (if c = CHR ''/'' then clean_loop rooted cs out dotdot
      else if c = CHR ''.'' \<and> (cs = [] \<or> hd cs = CHR ''/'') then clean_loop rooted cs out dotdot
      else if c = CHR ''.'' \<and> hd cs = CHR ''.'' \<and> (tl cs = [] \<or> hd (tl cs) = CHR ''/'') then
        (if length out > dotdot
         then clean_loop rooted (tl cs) (take (backtrack out dotdot (length out - 1)) out) dotdot
         else if \<not> rooted
         then clean_loop rooted (tl cs) ((if length out > 0 then out @ ''/'' else out) @ ''..'')
                (length ((if length out > 0 then out @ ''/'' else out) @ ''..''))
         else clean_loop rooted (tl cs) out dotdot)
      else clean_loop rooted (dropWhile (\<lambda>x. x \<noteq> CHR ''/'') (c # cs))
             ((if (rooted \<and> length out \<noteq> 1) \<or> (\<not> rooted \<and> length out \<noteq> 0) then out @ ''/'' else out)
                @ takeWhile (\<lambda>x. x \<noteq> CHR ''/'') (c # cs))
             dotdot)"
  by pat_completeness auto
termination
proof (relation "measure (\<lambda>(rooted, p, out, dotdot). length p)")
  show "wf (measure (\<lambda>(rooted, p, out, dotdot). length p))" by simp
next
  fix rooted :: bool and c :: char and cs out :: string and dotdot :: nat
  assume "c \<noteq> CHR ''/''"
  then have "length (dropWhile (\<lambda>x. x \<noteq> CHR ''/'') (c # cs)) \<le> length cs"
    by (simp add: length_dropWhile_le)
  then show "((rooted, dropWhile (\<lambda>x. x \<noteq> CHR ''/'') (c # cs),
               (if (rooted \<and> length out \<noteq> 1) \<or> (\<not> rooted \<and> length out \<noteq> 0) then out @ ''/'' else out)
                 @ takeWhile (\<lambda>x. x \<noteq> CHR ''/'') (c # cs), dotdot),
              (rooted, c # cs, out, dotdot)) \<in> measure (\<lambda>(rooted, p, out, dotdot). length p)"
    by simp
qed (auto simp: less_Suc_eq_le)

declare clean_loop.simps(2) [simp del]

definition Clean :: "string \<Rightarrow> string" where
  "Clean p =
     (if p = [] then ''.''
      else let rooted = (hd p = CHR ''/'');
               out = (if rooted then clean_loop True (tl p) ''/'' 1 else clean_loop False p [] 0)
           in if out = [] then ''.'' else out)"

text \<open>
  \<open>path.Join\<close> of Go 1.14: the elements from the first non-empty one on are joined with
  slashes and cleaned; with no non-empty element the result is empty.
\<close>

fun Join :: "string list \<Rightarrow> string" where
  "Join [] = []"
| "Join (e # es) = (if e \<noteq> [] then Clean (strings_Join (e # es) ''/'') else Join es)"

subsection \<open>strconv.FormatInt (base 10)\<close>

function format_nat :: "nat \<Rightarrow> string" where
  "format_nat n =
     (if n < 10 then [char_of (of_char (CHR ''0'') + n)]
      else format_nat (n div 10) @ [char_of (of_char (CHR ''0'') + n mod 10)])"
  by pat_completeness auto
termination
  by (relation "measure id") auto

declare format_nat.simps [simp del]

definition FormatInt :: "int \<Rightarrow> string" where
  "FormatInt i = (if i < 0 then CHR ''-'' # format_nat (nat (- i)) else format_nat (nat i))"

section \<open>Data model\<close>

type_synonym FileMode = "32 word"

definition ModePerm :: FileMode where "ModePerm = 511"
definition ModeSetuid :: FileMode where "ModeSetuid = push_bit 23 1"
definition ModeSetgid :: FileMode where "ModeSetgid = push_bit 22 1"
definition ModeSticky :: FileMode where "ModeSticky = push_bit 20 1"

text \<open>
  The Kubernetes objects, cut down to the fields the provisioner reads or writes.  Pointers that
  may be nil and that the code dereferences are options: the CSI source of a volume, the reclaim
  policy of a storage class, the selector of a claim, the mount options (a nil slice).  The
  claim and the storage class of a request and the volume handed to \<open>Delete\<close> are objects
  the controller has read from the cluster; they are taken to be present.
\<close>

record CSIPersistentVolumeSource =
  Driver :: string
  VolumeHandle :: string

record PersistentVolume =
  PV_Name :: string
  PV_Annotations :: "(string \<times> string) list option"
  PV_ReclaimPolicy :: string
  PV_AccessModes :: "string list"
  PV_Capacity :: "(string \<times> string) list"
  PV_StorageClassName :: string
  PV_CSI :: "CSIPersistentVolumeSource option"
  PV_MountOptions :: "string list"

record PersistentVolumeClaim =
  PVC_Name :: string
  PVC_Namespace :: string
  PVC_Selector :: "(string \<times> string) list option"
  PVC_AccessModes :: "string list"
  PVC_Requests :: "(string \<times> string) list"

text \<open>
  \<open>SC_Parameters\<close> is the Go map of storage-class parameters, as the list of its entries in
  the order in which this run's \<open>range\<close> loop visits them (the keys are distinct; Go fixes no
  order).
\<close>

record StorageClass =
  SC_Name :: string
  SC_Parameters :: "(string \<times> string) list"
  SC_MountOptions :: "string list option"
  SC_ReclaimPolicy :: "string option"

record ProvisionOptions =
  StorageClass :: StorageClass
  PVName :: string
  PVC :: PersistentVolumeClaim

datatype error =
    SelectorNotSupported
  | InvalidParameterValue string string
  | AllocatorError string
  | PathError string string string
  | DriverMismatch string
  | InvalidHandleFormat string
  | FilesystemMismatch string string
  | InvalidSubpath string
  | NilPointerPanic

text \<open>
  The GID allocator is an external collaborator: it is modelled by what it answers to the one
  call a \<open>Provision\<close> or \<open>Delete\<close> makes.
\<close>

record Allocator =
  AllocateNext :: "ProvisionOptions \<Rightarrow> error + int"
  Release :: "PersistentVolume \<Rightarrow> error option"

record efsProvisioner =
  fileSystemID :: string
  mountPoint :: string
  subPath :: string
  allocator :: Allocator

definition provisionerName :: string where
  "provisionerName = ''aws.k8s.logmein.com/efs-csi-pv-provisioner''"

definition efsCsiDriverName :: string where
  "efsCsiDriverName = ''efs.csi.aws.com''"

definition VolumeGidAnnotationKey :: string where
  "VolumeGidAnnotationKey = ''pv.beta.kubernetes.io/gid''"

definition ResourceStorage :: string where
  "ResourceStorage = ''storage''"

section \<open>The file system and the calls made to the outside\<close>

text \<open>
  A file-system node carries the POSIX mode bits, the owner and the group.  The tree is a map
  from path names to nodes; the paths the provisioner hands to the operating system are results
  of \<open>path.Join\<close>, hence normalized, so a node is identified by its path string and the
  descendants of \<open>p\<close> are the paths that start with \<open>p\<close> followed by a slash.
\<close>

record node =
  is_dir :: bool
  mode :: "32 word"
  owner :: int
  group :: int

datatype call =
    CallAllocateNext ProvisionOptions
  | CallRelease PersistentVolume
  | CallMkdirAll string FileMode
  | CallChmod string FileMode
  | CallChown string int int
  | CallRemoveAll string

text \<open>
  The environment of one run: the umask and the IDs of the process; \<open>fault\<close>, which says
  for each operating-system call whether the system refuses it (a read-only or unreachable
  file system, missing permission) and with which error; and \<open>unicode_lower\<close>, what
  \<open>Map(unicode.ToLower, s)\<close> of the Go library returns.
\<close>

record env =
  umask :: "32 word"
  uid :: nat
  gid :: nat
  fault :: "call \<Rightarrow> error option"
  unicode_lower :: "string \<Rightarrow> string"

record world =
  files :: "string \<rightharpoonup> node"
  trace :: "call list"

definition log_call :: "call \<Rightarrow> world \<Rightarrow> world" where
  "log_call c w = w\<lparr>trace := trace w @ [c]\<rparr>"

definition syscallMode :: "FileMode \<Rightarrow> 32 word" where
  "syscallMode i =
     (i AND ModePerm)
       OR (if i AND ModeSetuid \<noteq> 0 then 2048 else 0)
       OR (if i AND ModeSetgid \<noteq> 0 then 1024 else 0)
       OR (if i AND ModeSticky \<noteq> 0 then 512 else 0)"

definition below :: "string \<Rightarrow> string \<Rightarrow> bool" where
  "below p q = (q = p \<or> HasPrefix q (p @ ''/''))"

text \<open>
  \<open>os.Mkdir\<close> makes one directory, with the permission bits of \<open>perm\<close> cut by the umask
  (Linux honours only the permission bits and the sticky bit at \<open>mkdir\<close>), owned by the
  process.  It fails when the path exists, and when the directory that is to hold it is missing
  or is no directory.  \<open>parent_end\<close> is the index \<open>j\<close> that \<open>MkdirAll\<close> computes: trailing
  slashes are skipped, then the last element is scanned backward; the parent is
  \<open>path[:j-1]\<close> when \<open>j > 1\<close>, and the root or the working directory (taken to be there)
  otherwise.
\<close>

definition mkdir_node :: "env \<Rightarrow> FileMode \<Rightarrow> node" where
  "mkdir_node e perm =
     \<lparr>is_dir = True, mode = syscallMode perm AND NOT (umask e) AND 1023, owner = int (uid e),
       group = int (gid e)\<rparr>"

definition parent_end :: "string \<Rightarrow> nat" where
  "parent_end path =
     length (dropWhile (\<lambda>c. c \<noteq> CHR ''/'') (dropWhile (\<lambda>c. c = CHR ''/'') (rev path)))"

definition Mkdir :: "env \<Rightarrow> string \<Rightarrow> FileMode \<Rightarrow> (string \<rightharpoonup> node) \<Rightarrow> error + (string \<rightharpoonup> node)" where
  "Mkdir e path perm fs =
     (case fs path of
        Some n \<Rightarrow> Inl (PathError ''mkdir'' path ''EEXIST'')
      | None \<Rightarrow>
          if parent_end path > 1
          then (case fs (take (parent_end path - 1) path) of
                  None \<Rightarrow> Inl (PathError ''mkdir'' path ''ENOENT'')
                | Some d \<Rightarrow>
                    if is_dir d then Inr (fs(path \<mapsto> mkdir_node e perm))
                    else Inl (PathError ''mkdir'' path ''ENOTDIR''))
          else Inr (fs(path \<mapsto> mkdir_node e perm)))"

text \<open>
  \<open>os.MkdirAll\<close>, as the Go library has it: when the path is there, nothing is done for a
  directory and \<open>ENOTDIR\<close> is returned for anything else; otherwise the parent is made by a
  recursive call, whose error is returned, and then the directory itself by \<open>Mkdir\<close>, whose
  error is dropped when the path is a directory after all.
\<close>

function MkdirAll :: "env \<Rightarrow> string \<Rightarrow> FileMode \<Rightarrow> (string \<rightharpoonup> node) \<Rightarrow> error + (string \<rightharpoonup> node)" where
  "MkdirAll e path perm fs =
     (case fs path of
        Some n \<Rightarrow> if is_dir n then Inr fs else Inl (PathError ''mkdir'' path ''ENOTDIR'')
      | None \<Rightarrow>
          (case (if parent_end path > 1
                 then MkdirAll e (take (parent_end path - 1) path) perm fs
                 else Inr fs) of
             Inl err \<Rightarrow> Inl err
           | Inr fs1 \<Rightarrow>
               (case Mkdir e path perm fs1 of
                  Inl err \<Rightarrow>
                    (case fs1 path of
                       Some n \<Rightarrow> if is_dir n then Inr fs1 else Inl err
                     | None \<Rightarrow> Inl err)
                | Inr fs2 \<Rightarrow> Inr fs2)))"
  by pat_completeness auto
termination
proof (relation "measure (\<lambda>(e, path, perm, fs). length path)")
  show "wf (measure (\<lambda>(e, path, perm, fs). length path))" by simp
next
  fix e :: env and path :: string and perm :: FileMode and fs :: "string \<rightharpoonup> node"
  assume "1 < parent_end path"
  moreover have "parent_end path \<le> length path"
  proof -
    have "parent_end path \<le> length (dropWhile (\<lambda>c. c = CHR ''/'') (rev path))"
      unfolding parent_end_def by (rule length_dropWhile_le)
    also have "\<dots> \<le> length (rev path)" by (rule length_dropWhile_le)
    finally show ?thesis by simp
  qed
  ultimately show "((e, take (parent_end path - 1) path, perm, fs), (e, path, perm, fs))
                     \<in> measure (\<lambda>(e, path, perm, fs). length path)"
    by simp
qed

declare MkdirAll.simps [simp del]

text \<open>
  The call of \<open>os.MkdirAll\<close> in a world: it is logged, and the system may refuse to make
  anything; a refused or failed call leaves the files as they were.
\<close>

definition os_MkdirAll :: "env \<Rightarrow> string \<Rightarrow> FileMode \<Rightarrow> world \<Rightarrow> error option \<times> world" where
  "os_MkdirAll e p perm w0 =
     (let w = log_call (CallMkdirAll p perm) w0 in
      case files w p of
        Some n \<Rightarrow> if is_dir n then (None, w) else (Some (PathError ''mkdir'' p ''ENOTDIR''), w)
      | None \<Rightarrow>
          (case fault e (CallMkdirAll p perm) of
             Some err \<Rightarrow> (Some err, w)
           | None \<Rightarrow>
               (case MkdirAll e p perm (files w) of
                  Inl err \<Rightarrow> (Some err, w)
                | Inr fs \<Rightarrow> (None, w\<lparr>files := fs\<rparr>))))"

definition os_Chmod :: "env \<Rightarrow> string \<Rightarrow> FileMode \<Rightarrow> world \<Rightarrow> error option \<times> world" where
  "os_Chmod e p perm w0 =
     (let w = log_call (CallChmod p perm) w0 in
      case fault e (CallChmod p perm) of
        Some err \<Rightarrow> (Some err, w)
      | None \<Rightarrow>
          (case files w p of
             None \<Rightarrow> (Some (PathError ''chmod'' p ''ENOENT''), w)
           | Some n \<Rightarrow> (None, w\<lparr>files := (files w)(p \<mapsto> n\<lparr>mode := syscallMode perm\<rparr>)\<rparr>)))"

text \<open>\<open>os.Chown\<close>: a uid or gid of \<open>-1\<close> leaves that value as it is.\<close>

definition os_Chown :: "env \<Rightarrow> string \<Rightarrow> int \<Rightarrow> int \<Rightarrow> world \<Rightarrow> error option \<times> world" where
  "os_Chown e p u g w0 =
     (let w = log_call (CallChown p u g) w0 in
      case fault e (CallChown p u g) of
        Some err \<Rightarrow> (Some err, w)
      | None \<Rightarrow>
          (case files w p of
             None \<Rightarrow> (Some (PathError ''chown'' p ''ENOENT''), w)
           | Some n \<Rightarrow>
               (None, w\<lparr>files := (files w)(p \<mapsto> n\<lparr>owner := (if u = - 1 then owner n else u),
                                                      group := (if g = - 1 then group n else g)\<rparr>)\<rparr>)))"

text \<open>
  \<open>os.RemoveAll\<close>: removes the path and everything below it; a path that does not exist is
  no error.  When the removal is refused (by the system, or by \<open>RemoveAll\<close> itself for a
  path that ends in a dot) the path itself is still there; the model leaves the whole tree in
  place then.
\<close>

definition os_RemoveAll :: "env \<Rightarrow> string \<Rightarrow> world \<Rightarrow> error option \<times> world" where
  "os_RemoveAll e p w0 =
     (let w = log_call (CallRemoveAll p) w0 in
      case files w p of
        None \<Rightarrow> (None, w)
      | Some n \<Rightarrow>
          (case fault e (CallRemoveAll p) of
             Some err \<Rightarrow> (Some err, w)
           | None \<Rightarrow> (None, w\<lparr>files := (\<lambda>q. if below p q then None else files w q)\<rparr>)))"

definition os_Getuid :: "env \<Rightarrow> int" where
  "os_Getuid e = int (uid e)"

section \<open>The provisioner\<close>

definition getDirectoryName :: "efsProvisioner \<Rightarrow> ProvisionOptions \<Rightarrow> string" where
  "getDirectoryName p options =
     PVC_Namespace (PVC options) @ ''-'' @ PVC_Name (PVC options) @ ''-'' @ PVName options"

definition getLocalPath :: "efsProvisioner \<Rightarrow> ProvisionOptions \<Rightarrow> string" where
  "getLocalPath p options =
     Join [mountPoint p, ''/'', subPath p, ''/'', getDirectoryName p options]"

definition getRemotePath :: "efsProvisioner \<Rightarrow> ProvisionOptions \<Rightarrow> string" where
  "getRemotePath p options = Join [''/'', subPath p, ''/'', getDirectoryName p options]"

definition createVolume ::
  "efsProvisioner \<Rightarrow> env \<Rightarrow> string \<Rightarrow> int option \<Rightarrow> world \<Rightarrow> error option \<times> world" where
  "createVolume p e path gid_opt w =
     (let perm = (if gid_opt \<noteq> None then 505 OR ModeSetgid else 511) in
      case os_MkdirAll e path perm w of
        (Some err, w1) \<Rightarrow> (Some err, w1)
      | (None, w1) \<Rightarrow>
          (case os_Chmod e path perm w1 of
             (Some err, w2) \<Rightarrow> (Some err, snd (os_RemoveAll e path w2))
           | (None, w2) \<Rightarrow>
               (case gid_opt of
                  None \<Rightarrow> (None, w2)
                | Some g \<Rightarrow>
                    (case os_Chown e path (os_Getuid e) g w2 of
                       (Some err, w3) \<Rightarrow> (Some err, snd (os_RemoveAll e path w3))
                     | (None, w3) \<Rightarrow> (None, w3)))))"

text \<open>
  The loop over the storage-class parameters: \<open>g\<close> is the variable \<open>gidAllocate\<close>, and the
  loop returns at the first value \<open>ParseBool\<close> rejects.
\<close>

fun scan_parameters :: "(string \<Rightarrow> string) \<Rightarrow> (string \<times> string) list \<Rightarrow> bool \<Rightarrow> error + bool" where
  "scan_parameters ul [] g = Inr g"
| "scan_parameters ul ((k, v) # kvs) g =
     (if ToLower ul k = ''gidmin'' then scan_parameters ul kvs g
      else if ToLower ul k = ''gidmax'' then scan_parameters ul kvs g
      else if ToLower ul k = ''gidallocate'' then
        (case ParseBool v of
           None \<Rightarrow> Inl (InvalidParameterValue v k)
         | Some b \<Rightarrow> scan_parameters ul kvs b)
      else scan_parameters ul kvs g)"

definition lookup_request :: "(string \<times> string) list \<Rightarrow> string \<Rightarrow> string" where
  "lookup_request reqs k = (case map_of reqs k of None \<Rightarrow> [] | Some q \<Rightarrow> q)"

definition Provision ::
  "efsProvisioner \<Rightarrow> env \<Rightarrow> ProvisionOptions \<Rightarrow> world \<Rightarrow> (error + PersistentVolume) \<times> world" where
  "Provision p e options w =
     (if PVC_Selector (PVC options) \<noteq> None then (Inl SelectorNotSupported, w)
      else case scan_parameters (unicode_lower e) (SC_Parameters (StorageClass options)) True of
        Inl err \<Rightarrow> (Inl err, w)
      | Inr gidAllocate \<Rightarrow>
          (case (if gidAllocate
                 then (case AllocateNext (allocator p) options of
                         Inl err \<Rightarrow> (Inl err, log_call (CallAllocateNext options) w)
                       | Inr allocate \<Rightarrow> (Inr (Some allocate), log_call (CallAllocateNext options) w))
                 else (Inr None, w)) of
             (Inl err, w1) \<Rightarrow> (Inl err, w1)
           | (Inr gid_opt, w1) \<Rightarrow>
               (case createVolume p e (getLocalPath p options) gid_opt w1 of
                  (Some err, w2) \<Rightarrow> (Inl err, w2)
                | (None, w2) \<Rightarrow>
                    (let mountOptions = (case SC_MountOptions (StorageClass options) of
                                           None \<Rightarrow> [] | Some ms \<Rightarrow> ms) in
                     case SC_ReclaimPolicy (StorageClass options) of
                       None \<Rightarrow> (Inl NilPointerPanic, w2)
                     | Some policy \<Rightarrow>
                         (Inr \<lparr>PV_Name = PVName options,
                               PV_Annotations =
                                 (case gid_opt of
                                    None \<Rightarrow> None
                                  | Some g \<Rightarrow> Some [(VolumeGidAnnotationKey, FormatInt g)]),
                               PV_ReclaimPolicy = policy,
                               PV_AccessModes = PVC_AccessModes (PVC options),
                               PV_Capacity =
                                 [(ResourceStorage, lookup_request (PVC_Requests (PVC options)) ResourceStorage)],
                               PV_StorageClassName = ''efs-sc'',
                               PV_CSI = Some \<lparr>Driver = efsCsiDriverName,
                                               VolumeHandle = fileSystemID p @ '':'' @ getRemotePath p options\<rparr>,
                               PV_MountOptions = mountOptions\<rparr>, w2)))))"

text \<open>
  \<open>getLocalPathToDelete\<close> takes a pointer: a volume without a CSI source makes the first
  field access panic.
\<close>

definition getLocalPathToDelete ::
  "efsProvisioner \<Rightarrow> CSIPersistentVolumeSource option \<Rightarrow> error + string" where
  "getLocalPathToDelete p csi_opt =
     (case csi_opt of
        None \<Rightarrow> Inl NilPointerPanic
      | Some csi \<Rightarrow>
          if Driver csi \<noteq> efsCsiDriverName then Inl (DriverMismatch (Driver csi))
          else let parts = Split (VolumeHandle csi) (CHR '':'') in
            if length parts \<noteq> 2 then Inl (InvalidHandleFormat (VolumeHandle csi))
            else if parts ! 0 \<noteq> fileSystemID p then Inl (FilesystemMismatch (parts ! 0) (fileSystemID p))
            else let subPath' = Clean (parts ! 1);
                     prefix' = Join [''/'', subPath p] @ ''/'' in
              if \<not> HasPrefix subPath' prefix' \<or> subPath' = prefix' then Inl (InvalidSubpath (parts ! 1))
              else Inr (Join [mountPoint p, ''/'', parts ! 1]))"

definition Delete :: "efsProvisioner \<Rightarrow> env \<Rightarrow> PersistentVolume \<Rightarrow> world \<Rightarrow> error option \<times> world" where
  "Delete p e volume w =
     (let w1 = log_call (CallRelease volume) w in
      case Release (allocator p) volume of
        Some err \<Rightarrow> (Some err, w1)
      | None \<Rightarrow>
          (case getLocalPathToDelete p (PV_CSI volume) of
             Inl err \<Rightarrow> (Some err, w1)
           | Inr path \<Rightarrow> os_RemoveAll e path w1))"

section \<open>Fixtures\<close>

text \<open>
  The provisioner and the request of the repository's test \<open>TestProvisionAndDelete\<close>, with an
  allocator that hands out GID 2000 and accepts every release.
\<close>

definition sample_allocator :: Allocator where
  "sample_allocator = \<lparr>AllocateNext = (\<lambda>options. Inr 2000), Release = (\<lambda>volume. None)\<rparr>"

definition test_provisioner :: efsProvisioner where
  "test_provisioner =
     \<lparr>fileSystemID = ''fs-123456'', mountPoint = ''./efs'', subPath = ''/persistentvolumes'',
      allocator = sample_allocator\<rparr>"

definition test_options :: ProvisionOptions where
  "test_options =
     \<lparr>StorageClass = \<lparr>SC_Name = [], SC_Parameters = [(''gidallocate'', ''false'')],
                       SC_MountOptions = Some [''something'', ''something-else''],
                       SC_ReclaimPolicy = Some ''Retain''\<rparr>,
      PVName = ''pvc-123456'',
      PVC = \<lparr>PVC_Name = ''my-pvc'', PVC_Namespace = ''my-ns'', PVC_Selector = None,
              PVC_AccessModes = [''ReadWriteMany''], PVC_Requests = [(''storage'', ''1Mi'')]\<rparr>\<rparr>"

text \<open>
  An environment without faults (umask 022, running as root) and the empty world.  The
  fixtures have ASCII keys only, so the Unicode mapping is never asked; it is the identity here.
\<close>

definition env0 :: env where
  "env0 = \<lparr>umask = 18, uid = 0, gid = 0, fault = (\<lambda>c. None), unicode_lower = (\<lambda>s. s)\<rparr>"

definition world0 :: world where
  "world0 = \<lparr>files = Map.empty, trace = []\<rparr>"

text \<open>
  Environments in which the system refuses \<open>chmod\<close>, and in which it refuses \<open>chmod\<close> and
  the removal as well (a file system that has turned read-only or unreachable).
\<close>

definition env_chmod_fails :: env where
  "env_chmod_fails =
     env0\<lparr>fault := (\<lambda>c. case c of CallChmod q m \<Rightarrow> Some (PathError ''chmod'' q ''EROFS'') | _ \<Rightarrow> None)\<rparr>"

definition env_read_only :: env where
  "env_read_only =
     env0\<lparr>fault := (\<lambda>c. case c of
                         CallChmod q m \<Rightarrow> Some (PathError ''chmod'' q ''EROFS'')
                       | CallRemoveAll q \<Rightarrow> Some (PathError ''unlinkat'' q ''EROFS'')
                       | _ \<Rightarrow> None)\<rparr>"

text \<open>The volume the test expects from \<open>Provision\<close>, and a world that holds its directory.\<close>

definition test_pv :: PersistentVolume where
  "test_pv =
     \<lparr>PV_Name = ''pvc-123456'', PV_Annotations = None, PV_ReclaimPolicy = ''Retain'',
      PV_AccessModes = [''ReadWriteMany''], PV_Capacity = [(''storage'', ''1Mi'')],
      PV_StorageClassName = ''efs-sc'',
      PV_CSI = Some \<lparr>Driver = ''efs.csi.aws.com'',
                      VolumeHandle = ''fs-123456:/persistentvolumes/my-ns-my-pvc-pvc-123456''\<rparr>,
      PV_MountOptions = [''something'', ''something-else'']\<rparr>"

definition dir_node :: "int \<Rightarrow> node" where
  "dir_node u = \<lparr>is_dir = True, mode = 493, owner = u, group = u\<rparr>"

definition world_vol :: world where
  "world_vol =
     \<lparr>files = [''efs'' \<mapsto> dir_node 0,
               ''efs/persistentvolumes'' \<mapsto> dir_node 0,
               ''efs/persistentvolumes/my-ns-my-pvc-pvc-123456'' \<mapsto> dir_node 1000,
               ''efs/persistentvolumes/my-ns-my-pvc-pvc-123456/data'' \<mapsto> (dir_node 1000)\<lparr>is_dir := False\<rparr>],
      trace = []\<rparr>"

definition failing_allocator :: Allocator where
  "failing_allocator =
     \<lparr>AllocateNext = (\<lambda>options. Inl (AllocatorError ''no gid left'')),
      Release = (\<lambda>volume. Some (AllocatorError ''release failed''))\<rparr>"

text \<open>The calls that go to the operating system, as opposed to the allocator.\<close>

fun is_os_call :: "call \<Rightarrow> bool" where
  "is_os_call (CallAllocateNext options) = False"
| "is_os_call (CallRelease volume) = False"
| "is_os_call c = True"

text \<open>
  The texts given for the storage-class parameter \<open>gidAllocate\<close>: the values of the keys that
  \<open>strings.ToLower\<close> turns into \<open>gidallocate\<close>, in the order in which the loop visits
  them.
\<close>

definition gidAllocate_texts :: "(string \<Rightarrow> string) \<Rightarrow> (string \<times> string) list \<Rightarrow> string list" where
  "gidAllocate_texts ul params =
     map snd (filter (\<lambda>kv. ToLower ul (fst kv) = ''gidallocate'') params)"

text \<open>Requests with a \<open>gidAllocate\<close> text that is no boolean, and without the parameter.\<close>

definition opts_bad :: ProvisionOptions where
  "opts_bad = test_options\<lparr>StorageClass := (StorageClass test_options)\<lparr>SC_Parameters := [(''gidMin'', ''3000''), (''gidAllocate'', ''yes'')]\<rparr>\<rparr>"

definition opts_default :: ProvisionOptions where
  "opts_default = test_options\<lparr>StorageClass := (StorageClass test_options)\<lparr>SC_Parameters := [(''gidMin'', ''3000'')]\<rparr>\<rparr>"

text \<open>The same two requests for a claim that has a selector.\<close>

definition opts_selector :: ProvisionOptions where
  "opts_selector = opts_default\<lparr>PVC := (PVC opts_default)\<lparr>PVC_Selector := Some [(''app'', ''db'')]\<rparr>\<rparr>"

definition opts_selector_bad :: ProvisionOptions where
  "opts_selector_bad = opts_bad\<lparr>PVC := (PVC opts_bad)\<lparr>PVC_Selector := Some [(''app'', ''db'')]\<rparr>\<rparr>"

text \<open>
  A request whose only parameter key is \<open>gidallocate\<close> written with U+0130 (capital I with
  dot above, the bytes C4 B0 in UTF-8) in the place of the \<open>i\<close>, and an environment whose
  Unicode mapping lowers that key as Go does, to \<open>gidallocate\<close>.
\<close>

definition key_dotted_I :: string where
  "key_dotted_I = ''g'' @ [CHR 0xC4, CHR 0xB0] @ ''dallocate''"

definition env_unicode :: env where
  "env_unicode = env0\<lparr>unicode_lower := (\<lambda>s. if s = key_dotted_I then ''gidallocate'' else s)\<rparr>"

definition opts_dotted_I :: ProvisionOptions where
  "opts_dotted_I = test_options\<lparr>StorageClass := (StorageClass test_options)\<lparr>SC_Parameters := [(key_dotted_I, ''false'')]\<rparr>\<rparr>"

section \<open>Splitting the volume handle\<close>

lemma Split_no_sep: "sep \<notin> set s \<Longrightarrow> Split s sep = [s]"
  by (simp add: Split.simps)

lemma Split_sep:
  "sep \<in> set s \<Longrightarrow>
     Split s sep = takeWhile (\<lambda>x. x \<noteq> sep) s # Split (tl (dropWhile (\<lambda>x. x \<noteq> sep) s)) sep"
  by (subst Split.simps) simp

lemma count_list_split:
  assumes "sep \<in> set s"
  shows "count_list s sep = Suc (count_list (tl (dropWhile (\<lambda>x. x \<noteq> sep) s)) sep)"
proof -
  from assms have ne: "dropWhile (\<lambda>x. x \<noteq> sep) s \<noteq> []" by (simp add: dropWhile_eq_Nil_conv)
  then have hd: "hd (dropWhile (\<lambda>x. x \<noteq> sep) s) = sep" using hd_dropWhile[of "\<lambda>x. x \<noteq> sep" s] by simp
  have "sep \<notin> set (takeWhile (\<lambda>x. x \<noteq> sep) s)" by (auto dest: set_takeWhileD)
  then have z: "count_list (takeWhile (\<lambda>x. x \<noteq> sep) s) sep = 0" by (simp add: count_list_0_iff)
  have "s = takeWhile (\<lambda>x. x \<noteq> sep) s @ sep # tl (dropWhile (\<lambda>x. x \<noteq> sep) s)"
    using ne hd by (metis takeWhile_dropWhile_id list.collapse)
  then have "count_list s sep = count_list (takeWhile (\<lambda>x. x \<noteq> sep) s @ sep # tl (dropWhile (\<lambda>x. x \<noteq> sep) s)) sep"
    by simp
  then show ?thesis using z by simp
qed

lemma length_Split: "length (Split s sep) = Suc (count_list s sep)"
proof (induction s sep rule: Split.induct)
  case (1 s sep)
  show ?case
  proof (cases "sep \<in> set s")
    case True
    then show ?thesis using 1 by (simp add: Split_sep count_list_split)
  next
    case False
    then show ?thesis by (simp add: Split_no_sep count_list_0_iff)
  qed
qed

lemma Split_one:
  assumes "count_list s sep = 1"
  shows "Split s sep = [takeWhile (\<lambda>x. x \<noteq> sep) s, tl (dropWhile (\<lambda>x. x \<noteq> sep) s)]"
proof -
  from assms have mem: "sep \<in> set s" by (metis count_list_0_iff zero_neq_one)
  with assms have "count_list (tl (dropWhile (\<lambda>x. x \<noteq> sep) s)) sep = 0"
    by (simp add: count_list_split)
  then have "sep \<notin> set (tl (dropWhile (\<lambda>x. x \<noteq> sep) s))" by (simp add: count_list_0_iff)
  then show ?thesis using mem by (simp add: Split_sep Split_no_sep)
qed

section \<open>Directory names\<close>

lemma directoryName_suffix: "suffix (PVName options) (getDirectoryName p options)"
  unfolding getDirectoryName_def by (intro suffix_appendI suffix_order.refl)

lemma directoryName_equal_suffix:
  assumes "getDirectoryName p o1 = getDirectoryName p o2"
  shows "suffix (PVName o1) (PVName o2) \<or> suffix (PVName o2) (PVName o1)"
proof -
  have "suffix (PVName o1) (getDirectoryName p o1)" by (rule directoryName_suffix)
  moreover have "suffix (PVName o2) (getDirectoryName p o1)"
    unfolding assms by (rule directoryName_suffix)
  ultimately show ?thesis by (rule suffix_same_cases)
qed

lemma directoryName_distinct_same_length:
  assumes "PVName o1 \<noteq> PVName o2" and "length (PVName o1) = length (PVName o2)"
  shows "getDirectoryName p o1 \<noteq> getDirectoryName p o2"
proof
  assume "getDirectoryName p o1 = getDirectoryName p o2"
  then have "suffix (PVName o1) (PVName o2) \<or> suffix (PVName o2) (PVName o1)"
    by (rule directoryName_equal_suffix)
  with assms(2) have "PVName o1 = PVName o2"
    by (auto simp: suffix_def)
  with assms(1) show False by simp
qed

text \<open>
  C3 (amended).  Two requests whose volume names are such that neither is a suffix of the
  other get different directory names; distinct volume names of equal length, as the
  controller's \<open>pvc-<UID>\<close> names are, are such names.  Distinct volume names alone are
  not enough: the separator \<open>-\<close> may occur inside the three parts.
\<close>

theorem directoryName_distinct:
  assumes "\<not> suffix (PVName o1) (PVName o2)" and "\<not> suffix (PVName o2) (PVName o1)"
  shows "getDirectoryName p o1 \<noteq> getDirectoryName p o2"
  using directoryName_equal_suffix [of p o1 o2] assms by blast

theorem directoryName_distinct_witness:
  "\<not> suffix (PVName test_options) (PVName (test_options\<lparr>PVName := ''pvc-654321''\<rparr>))
   \<and> \<not> suffix (PVName (test_options\<lparr>PVName := ''pvc-654321''\<rparr>)) (PVName test_options)
   \<and> getDirectoryName test_provisioner test_options
       \<noteq> getDirectoryName test_provisioner (test_options\<lparr>PVName := ''pvc-654321''\<rparr>)"
proof -
  have a: "\<not> suffix (PVName test_options) (PVName (test_options\<lparr>PVName := ''pvc-654321''\<rparr>))"
    by (simp add: test_options_def suffix_to_prefix)
  have b: "\<not> suffix (PVName (test_options\<lparr>PVName := ''pvc-654321''\<rparr>)) (PVName test_options)"
    by (simp add: test_options_def suffix_to_prefix)
  show ?thesis using a b directoryName_distinct [OF a b, of test_provisioner] by simp
qed

text \<open>
  C3 as stated fails: the volume names \<open>c-d\<close> and \<open>d\<close> differ, and with the claim names
  \<open>my-pvc\<close> and \<open>my-pvc-c\<close> both requests map to \<open>my-ns-my-pvc-c-d\<close>.
\<close>

theorem directoryName_collision:
  "PVName (test_options\<lparr>PVName := ''c-d''\<rparr>)
     \<noteq> PVName (test_options\<lparr>PVName := ''d'', PVC := (PVC test_options)\<lparr>PVC_Name := ''my-pvc-c''\<rparr>\<rparr>)
   \<and> getDirectoryName test_provisioner (test_options\<lparr>PVName := ''c-d''\<rparr>)
       = getDirectoryName test_provisioner
           (test_options\<lparr>PVName := ''d'', PVC := (PVC test_options)\<lparr>PVC_Name := ''my-pvc-c''\<rparr>\<rparr>)"
  by (simp add: test_options_def getDirectoryName_def)

section \<open>Decoding the volume handle\<close>

text \<open>
  C4 (amended).  For a volume of the EFS CSI driver, decoding fails with the invalid-handle
  error exactly when the handle does not contain exactly one colon: the handle is cut at every
  colon, not only at the first.  With exactly one colon the two parts are the text before it
  and the text after it.
\<close>

theorem decode_format_error:
  assumes "Driver csi = efsCsiDriverName"
  shows "(getLocalPathToDelete p (Some csi) = Inl (InvalidHandleFormat (VolumeHandle csi))
            \<longleftrightarrow> count_list (VolumeHandle csi) (CHR '':'') \<noteq> 1)
         \<and> (count_list (VolumeHandle csi) (CHR '':'') = 1 \<longrightarrow>
              Split (VolumeHandle csi) (CHR '':'') =
                [takeWhile (\<lambda>x. x \<noteq> CHR '':'') (VolumeHandle csi),
                 tl (dropWhile (\<lambda>x. x \<noteq> CHR '':'') (VolumeHandle csi))])"
proof -
  have len: "length (Split (VolumeHandle csi) (CHR '':'')) \<noteq> 2
               \<longleftrightarrow> count_list (VolumeHandle csi) (CHR '':'') \<noteq> 1"
    by (simp add: length_Split)
  have "getLocalPathToDelete p (Some csi) = Inl (InvalidHandleFormat (VolumeHandle csi))
          \<longleftrightarrow> length (Split (VolumeHandle csi) (CHR '':'')) \<noteq> 2"
    using assms by (simp add: getLocalPathToDelete_def Let_def)
  with len show ?thesis by (simp add: Split_one)
qed

theorem decode_format_error_witness:
  "Driver \<lparr>Driver = efsCsiDriverName, VolumeHandle = ''fs-123456:/persistentvolumes/something''\<rparr>
     = efsCsiDriverName
   \<and> count_list ''fs-123456:/persistentvolumes/something'' (CHR '':'') = 1
   \<and> getLocalPathToDelete test_provisioner
         (Some \<lparr>Driver = efsCsiDriverName, VolumeHandle = ''fs-123456:/persistentvolumes/something''\<rparr>)
       \<noteq> Inl (InvalidHandleFormat ''fs-123456:/persistentvolumes/something'')
   \<and> Split ''fs-123456:/persistentvolumes/something'' (CHR '':'')
       = [''fs-123456'', ''/persistentvolumes/something'']"
proof -
  have d: "Driver \<lparr>Driver = efsCsiDriverName, VolumeHandle = ''fs-123456:/persistentvolumes/something''\<rparr>
             = efsCsiDriverName" by simp
  have c: "count_list ''fs-123456:/persistentvolumes/something'' (CHR '':'') = 1" by simp
  show ?thesis using decode_format_error [OF d, of test_provisioner] c by simp
qed

text \<open>
  C4 as stated fails: the handle \<open>fs-123456:/persistentvolumes/a:b\<close> contains a colon, and
  decoding it fails with the invalid-handle error, because the second colon makes three parts.
\<close>

theorem decode_second_colon_rejected:
  "CHR '':'' \<in> set ''fs-123456:/persistentvolumes/a:b''
   \<and> getLocalPathToDelete test_provisioner
         (Some \<lparr>Driver = efsCsiDriverName, VolumeHandle = ''fs-123456:/persistentvolumes/a:b''\<rparr>)
       = Inl (InvalidHandleFormat ''fs-123456:/persistentvolumes/a:b'')"
  by (simp add: getLocalPathToDelete_def Split.simps)

subsection \<open>The check of the path part\<close>

text \<open>
  A handle that passes the driver, format and file-system checks is rejected with the
  invalid-subpath error unless its normalized path part has the storage root followed by a
  slash as a proper prefix; and every accepted handle has such a path part.
\<close>

lemma decode_rejects_outside_root:
  assumes "Driver csi = efsCsiDriverName"
    and "Split (VolumeHandle csi) (CHR '':'') = [a, b]"
    and "a = fileSystemID p"
    and "\<not> HasPrefix (Clean b) (Join [''/'', subPath p] @ ''/'') \<or> Clean b = Join [''/'', subPath p] @ ''/''"
  shows "getLocalPathToDelete p (Some csi) = Inl (InvalidSubpath b)"
  using assms by (simp add: getLocalPathToDelete_def Let_def)

lemma decode_accepts_inside_root:
  assumes "getLocalPathToDelete p (Some csi) = Inr local"
  shows "\<exists>b. Split (VolumeHandle csi) (CHR '':'') = [fileSystemID p, b]
           \<and> HasPrefix (Clean b) (Join [''/'', subPath p] @ ''/'')
           \<and> Clean b \<noteq> Join [''/'', subPath p] @ ''/''
           \<and> local = Join [mountPoint p, ''/'', b]"
proof -
  let ?parts = "Split (VolumeHandle csi) (CHR '':'')"
  from assms have len: "length ?parts = 2"
    by (auto simp: getLocalPathToDelete_def Let_def split: if_splits)
  then obtain a b where parts: "?parts = [a, b]"
    by (cases ?parts; cases "tl ?parts"; cases "tl (tl ?parts)") auto
  with assms show ?thesis
    by (auto simp: getLocalPathToDelete_def Let_def split: if_splits)
qed

text \<open>
  C1 (the code departs from the claim).  The check is made on the normalized path part, but
  the path that is returned joins the mount point with the path part as it came: \<open>..\<close>
  elements at the front of the path part are dropped at the root when the part is normalized
  alone, and climb out of the mount point when it is normalized behind the mount point.  With
  the test's provisioner (mount point \<open>./efs\<close>, storage root \<open>/persistentvolumes\<close>) the
  handle \<open>fs-123456:/../persistentvolumes/x\<close> is accepted and decodes to
  \<open>persistentvolumes/x\<close>, outside \<open>efs/persistentvolumes\<close>; with the mount point
  \<open>/mnt/efs\<close> it decodes to \<open>/mnt/persistentvolumes/x\<close>.
\<close>

theorem decode_escapes_mount_point:
  "getLocalPathToDelete test_provisioner
     (Some \<lparr>Driver = efsCsiDriverName, VolumeHandle = ''fs-123456:/../persistentvolumes/x''\<rparr>)
     = Inr ''persistentvolumes/x''
   \<and> getLocalPathToDelete (test_provisioner\<lparr>mountPoint := ''/mnt/efs''\<rparr>)
     (Some \<lparr>Driver = efsCsiDriverName, VolumeHandle = ''fs-123456:/../persistentvolumes/x''\<rparr>)
     = Inr ''/mnt/persistentvolumes/x''"
  by code_simp

theorem decode_escapes_mount_point_witness:
  "getLocalPathToDelete test_provisioner
     (Some \<lparr>Driver = efsCsiDriverName, VolumeHandle = ''fs-123456:/../persistentvolumes/x''\<rparr>)
     \<noteq> Inl (InvalidSubpath ''/../persistentvolumes/x'')
   \<and> \<not> HasPrefix (projr (getLocalPathToDelete test_provisioner
          (Some \<lparr>Driver = efsCsiDriverName, VolumeHandle = ''fs-123456:/../persistentvolumes/x''\<rparr>)))
        ''efs/persistentvolumes/''"
  using decode_escapes_mount_point by (simp add: HasPrefix_def)

section \<open>The directory lifecycle\<close>

subsection \<open>What the operating-system calls do\<close>

lemma syscallMode_open: "syscallMode 511 = 511"
  by (simp add: syscallMode_def ModePerm_def ModeSetuid_def ModeSetgid_def ModeSticky_def)

lemma syscallMode_setgid: "syscallMode (505 OR ModeSetgid) = 1529"
  by (simp add: syscallMode_def ModePerm_def ModeSetuid_def ModeSetgid_def ModeSticky_def)

lemma MkdirAll_dir:
  assumes "MkdirAll e path perm fs = Inr fs'"
  shows "\<exists>n. fs' path = Some n \<and> is_dir n"
  using assms
  by (subst (asm) MkdirAll.simps)
     (auto simp: Mkdir_def mkdir_node_def split: option.splits sum.splits if_splits)

lemma os_MkdirAll_None:
  assumes "os_MkdirAll e p perm w = (None, w1)"
  shows "(\<exists>n. files w1 p = Some n \<and> is_dir n) \<and> trace w1 = trace w @ [CallMkdirAll p perm]"
  using assms
  by (auto simp: os_MkdirAll_def log_call_def Let_def dest: MkdirAll_dir
           split: option.splits sum.splits if_splits)

lemma os_Chmod_None:
  assumes "os_Chmod e p perm w = (None, w1)"
  shows "\<exists>n. files w p = Some n \<and> files w1 = (files w)(p \<mapsto> n\<lparr>mode := syscallMode perm\<rparr>)
           \<and> trace w1 = trace w @ [CallChmod p perm]"
  using assms
  by (auto simp: os_Chmod_def log_call_def Let_def split: option.splits)

lemma os_Chmod_Some:
  assumes "os_Chmod e p perm w = (Some err, w1)"
  shows "files w1 = files w \<and> trace w1 = trace w @ [CallChmod p perm]
           \<and> (fault e (CallChmod p perm) = Some err \<or> files w p = None)"
  using assms
  by (auto simp: os_Chmod_def log_call_def Let_def split: option.splits)

lemma os_Chown_None:
  assumes "os_Chown e p u g w = (None, w1)"
  shows "\<exists>n. files w p = Some n
           \<and> files w1 = (files w)(p \<mapsto> n\<lparr>owner := (if u = - 1 then owner n else u),
                                          group := (if g = - 1 then group n else g)\<rparr>)
           \<and> trace w1 = trace w @ [CallChown p u g]"
  using assms
  by (auto simp: os_Chown_def log_call_def Let_def split: option.splits)

lemma os_Chown_Some:
  assumes "os_Chown e p u g w = (Some err, w1)"
  shows "files w1 = files w \<and> trace w1 = trace w @ [CallChown p u g]
           \<and> (fault e (CallChown p u g) = Some err \<or> files w p = None)"
  using assms
  by (auto simp: os_Chown_def log_call_def Let_def split: option.splits)

lemma os_RemoveAll_trace: "trace (snd (os_RemoveAll e p w)) = trace w @ [CallRemoveAll p]"
  by (auto simp: os_RemoveAll_def log_call_def Let_def split: option.splits)

lemma below_self: "below p p"
  by (simp add: below_def)

lemma os_RemoveAll_gone:
  assumes "fault e (CallRemoveAll p) = None" and "files w p \<noteq> None" and "below p q"
  shows "files (snd (os_RemoveAll e p w)) q = None"
  using assms by (auto simp: os_RemoveAll_def log_call_def Let_def)

lemma os_RemoveAll_kept:
  assumes "\<not> below p q"
  shows "files (snd (os_RemoveAll e p w)) q = files w q"
  using assms by (auto simp: os_RemoveAll_def log_call_def Let_def split: option.splits)

lemma os_RemoveAll_absent:
  assumes "files w p = None"
  shows "os_RemoveAll e p w = (None, log_call (CallRemoveAll p) w)"
  using assms by (simp add: os_RemoveAll_def log_call_def Let_def)

lemma os_RemoveAll_None:
  assumes "os_RemoveAll e p w = (None, w1)" and "files w p \<noteq> None" and "below p q"
  shows "files w1 q = None"
  using assms by (auto simp: os_RemoveAll_def log_call_def Let_def split: option.splits)

lemma not_below_ancestor:
  assumes "HasPrefix p (q @ ''/'')"
  shows "\<not> below p q"
proof
  assume "below p q"
  then have "q = p \<or> HasPrefix q (p @ ''/'')" by (simp add: below_def)
  then have "length p \<le> length q" by (auto simp: HasPrefix_def)
  moreover from assms have "length q < length p" by (simp add: HasPrefix_def)
  ultimately show False by simp
qed

subsection \<open>createVolume\<close>

text \<open>
  C6 (amended).  When \<open>createVolume\<close> succeeds, the target is a directory whose mode is 0777
  (511) without a GID and 02771 (1529: 0771 with the set-group-ID bit) with one, whatever the
  umask, because \<open>Chmod\<close> is called after \<open>MkdirAll\<close> with the same mode.  With a GID \<open>g\<close>
  the directory is given to the process's own user ID (as \<open>os.Getuid\<close> reports it) and, unless
  \<open>g\<close> is \<open>-1\<close>, to the group \<open>g\<close>: the owner is set and not left as it was.
\<close>

theorem createVolume_success:
  assumes "createVolume p e path gid_opt w = (None, w')"
  shows "\<exists>n. files w' path = Some n \<and> is_dir n
           \<and> mode n = (if gid_opt = None then 511 else 1529)
           \<and> (\<forall>g. gid_opt = Some g \<longrightarrow> owner n = int (uid e) \<and> (g \<noteq> - 1 \<longrightarrow> group n = g))
           \<and> trace w' = trace w
               @ [CallMkdirAll path (if gid_opt = None then 511 else 505 OR ModeSetgid),
                  CallChmod path (if gid_opt = None then 511 else 505 OR ModeSetgid)]
               @ (case gid_opt of None \<Rightarrow> [] | Some g \<Rightarrow> [CallChown path (int (uid e)) g])"
proof -
  let ?perm = "if gid_opt \<noteq> None then 505 OR ModeSetgid else (511 :: FileMode)"
  obtain r1 w1 where mk: "os_MkdirAll e path ?perm w = (r1, w1)" by (cases "os_MkdirAll e path ?perm w")
  obtain r2 w2 where ch: "os_Chmod e path ?perm w1 = (r2, w2)" by (cases "os_Chmod e path ?perm w1")
  from assms mk have r1: "r1 = None"
    by (cases r1) (auto simp: createVolume_def Let_def)
  from assms mk ch r1 have r2: "r2 = None"
    by (cases r2) (auto simp: createVolume_def Let_def)
  from os_MkdirAll_None [OF mk [unfolded r1]]
  obtain n1 where n1: "files w1 path = Some n1" "is_dir n1"
    and t1: "trace w1 = trace w @ [CallMkdirAll path ?perm]" by blast
  from os_Chmod_None [OF ch [unfolded r2]] n1
  have f2: "files w2 = (files w1)(path \<mapsto> n1\<lparr>mode := syscallMode ?perm\<rparr>)"
    and t2: "trace w2 = trace w1 @ [CallChmod path ?perm]" by auto
  show ?thesis
  proof (cases gid_opt)
    case None
    with assms mk ch r1 r2 have "w' = w2" by (simp add: createVolume_def Let_def)
    with None f2 t1 t2 n1 show ?thesis by (simp add: syscallMode_open)
  next
    case (Some g)
    obtain r3 w3 where co: "os_Chown e path (os_Getuid e) g w2 = (r3, w3)"
      by (cases "os_Chown e path (os_Getuid e) g w2")
    from assms mk ch r1 r2 Some co have r3: "r3 = None" and w': "w' = w3"
      by (cases r3; simp add: createVolume_def Let_def)+
    from os_Chown_None [OF co [unfolded r3]] f2
    have f3: "files w3 path = Some (n1\<lparr>mode := syscallMode ?perm,
                                        owner := (if os_Getuid e = - 1 then owner n1 else os_Getuid e),
                                        group := (if g = - 1 then group n1 else g)\<rparr>)"
      and t3: "trace w3 = trace w2 @ [CallChown path (os_Getuid e) g]" by auto
    with Some w' t1 t2 n1 show ?thesis
      by (simp add: syscallMode_setgid os_Getuid_def)
  qed
qed

theorem createVolume_success_witness:
  "fst (createVolume test_provisioner env0 ''efs/persistentvolumes/x'' (Some 2000) world0) = None
   \<and> (\<exists>n. files (snd (createVolume test_provisioner env0 ''efs/persistentvolumes/x'' (Some 2000) world0))
              ''efs/persistentvolumes/x'' = Some n
          \<and> is_dir n \<and> mode n = 1529 \<and> owner n = 0 \<and> group n = 2000)"
proof -
  have f: "fst (createVolume test_provisioner env0 ''efs/persistentvolumes/x'' (Some 2000) world0) = None"
    by code_simp
  then have h: "createVolume test_provisioner env0 ''efs/persistentvolumes/x'' (Some 2000) world0
                  = (None, snd (createVolume test_provisioner env0 ''efs/persistentvolumes/x'' (Some 2000) world0))"
    by (metis prod.collapse)
  show ?thesis using createVolume_success [OF h] f by (auto simp: env0_def)
qed

text \<open>
  C6 as stated fails in the owner: a directory that is there already and belongs to user 1000
  is given to the process's user (here 0) when a GID is set.
\<close>

theorem createVolume_changes_owner:
  "files world_vol ''efs/persistentvolumes/my-ns-my-pvc-pvc-123456''
     = Some \<lparr>is_dir = True, mode = 493, owner = 1000, group = 1000\<rparr>
   \<and> fst (createVolume test_provisioner env0 ''efs/persistentvolumes/my-ns-my-pvc-pvc-123456''
            (Some 2000) world_vol) = None
   \<and> files (snd (createVolume test_provisioner env0 ''efs/persistentvolumes/my-ns-my-pvc-pvc-123456''
                   (Some 2000) world_vol)) ''efs/persistentvolumes/my-ns-my-pvc-pvc-123456''
     = Some \<lparr>is_dir = True, mode = 1529, owner = 0, group = 2000\<rparr>"
  by code_simp

text \<open>
  C5 (amended).  When \<open>MkdirAll\<close> has succeeded and \<open>createVolume\<close> fails, the error is the
  one the system gave to \<open>Chmod\<close> or to \<open>Chown\<close>, and the last call made is the recursive
  removal of the target path; when the system does not refuse that removal, nothing is left at
  the target path or below it.  The result of the removal is discarded.
\<close>

theorem createVolume_rollback:
  assumes "fst (os_MkdirAll e path (if gid_opt \<noteq> None then 505 OR ModeSetgid else 511) w) = None"
    and "createVolume p e path gid_opt w = (Some err, w')"
  shows "last (trace w') = CallRemoveAll path
         \<and> (fault e (CallChmod path (if gid_opt \<noteq> None then 505 OR ModeSetgid else 511)) = Some err
              \<or> (\<exists>g. gid_opt = Some g \<and> fault e (CallChown path (int (uid e)) g) = Some err))
         \<and> (fault e (CallRemoveAll path) = None \<longrightarrow> (\<forall>q. below path q \<longrightarrow> files w' q = None))"
proof -
  let ?perm = "if gid_opt \<noteq> None then 505 OR ModeSetgid else (511 :: FileMode)"
  obtain w1 where mk: "os_MkdirAll e path ?perm w = (None, w1)"
    using assms(1) by (cases "os_MkdirAll e path ?perm w") auto
  obtain r2 w2 where ch: "os_Chmod e path ?perm w1 = (r2, w2)" by (cases "os_Chmod e path ?perm w1")
  from os_MkdirAll_None [OF mk] obtain n1 where n1: "files w1 path = Some n1" by blast
  show ?thesis
  proof (cases r2)
    case (Some err2)
    from assms(2) mk ch Some have err: "err = err2" and w': "w' = snd (os_RemoveAll e path w2)"
      by (simp_all add: createVolume_def Let_def)
    from os_Chmod_Some [OF ch [unfolded Some]] n1
    have f2: "files w2 path \<noteq> None" and fl: "fault e (CallChmod path ?perm) = Some err2" by auto
    show ?thesis
      using err w' fl f2 by (auto simp: os_RemoveAll_trace os_RemoveAll_gone)
  next
    case None
    from os_Chmod_None [OF ch [unfolded None]] n1 have f2: "files w2 path \<noteq> None" by auto
    show ?thesis
    proof (cases gid_opt)
      case None': None
      with assms(2) mk ch None show ?thesis by (simp add: createVolume_def Let_def)
    next
      case (Some g)
      obtain r3 w3 where co: "os_Chown e path (os_Getuid e) g w2 = (r3, w3)"
        by (cases "os_Chown e path (os_Getuid e) g w2")
      from assms(2) mk ch None Some co obtain err3 where r3: "r3 = Some err3"
        by (cases r3) (auto simp: createVolume_def Let_def)
      from assms(2) mk ch None Some co r3
      have err: "err = err3" and w': "w' = snd (os_RemoveAll e path w3)"
        by (simp_all add: createVolume_def Let_def)
      from os_Chown_Some [OF co [unfolded r3]] f2
      have f3: "files w3 path \<noteq> None" and fl: "fault e (CallChown path (os_Getuid e) g) = Some err3"
        by auto
      show ?thesis
        using err w' fl f3 Some by (auto simp: os_RemoveAll_trace os_RemoveAll_gone os_Getuid_def)
    qed
  qed
qed

theorem createVolume_rollback_witness:
  "fst (os_MkdirAll env_chmod_fails ''efs/persistentvolumes/x''
          (if (None :: int option) \<noteq> None then 505 OR ModeSetgid else 511) world0) = None
   \<and> fst (createVolume test_provisioner env_chmod_fails ''efs/persistentvolumes/x'' None world0)
       = Some (PathError ''chmod'' ''efs/persistentvolumes/x'' ''EROFS'')
   \<and> fault env_chmod_fails (CallRemoveAll ''efs/persistentvolumes/x'') = None
   \<and> last (trace (snd (createVolume test_provisioner env_chmod_fails ''efs/persistentvolumes/x'' None world0)))
       = CallRemoveAll ''efs/persistentvolumes/x''
   \<and> files (snd (createVolume test_provisioner env_chmod_fails ''efs/persistentvolumes/x'' None world0))
        ''efs/persistentvolumes/x'' = None"
proof -
  have a: "fst (os_MkdirAll env_chmod_fails ''efs/persistentvolumes/x''
                 (if (None :: int option) \<noteq> None then 505 OR ModeSetgid else 511) world0) = None"
    by code_simp
  have f: "fst (createVolume test_provisioner env_chmod_fails ''efs/persistentvolumes/x'' None world0)
          = Some (PathError ''chmod'' ''efs/persistentvolumes/x'' ''EROFS'')"
    by code_simp
  then have b: "createVolume test_provisioner env_chmod_fails ''efs/persistentvolumes/x'' None world0
                  = (Some (PathError ''chmod'' ''efs/persistentvolumes/x'' ''EROFS''),
                     snd (createVolume test_provisioner env_chmod_fails ''efs/persistentvolumes/x'' None world0))"
    by (metis prod.collapse)
  have c: "fault env_chmod_fails (CallRemoveAll ''efs/persistentvolumes/x'') = None"
    by (simp add: env_chmod_fails_def)
  show ?thesis using createVolume_rollback [OF a b] a f c by (auto simp: below_self)
qed

text \<open>
  C5 as stated fails when the removal is refused too: on a file system that has turned
  read-only, \<open>Chmod\<close> fails, the removal fails, its error is dropped, and the directory
  stays at the target path with the mode the umask left it (0755).
\<close>

theorem createVolume_rollback_fails:
  "fst (os_MkdirAll env_read_only ''efs/persistentvolumes/x'' 511 world0) = None
   \<and> fst (createVolume test_provisioner env_read_only ''efs/persistentvolumes/x'' None world0)
       = Some (PathError ''chmod'' ''efs/persistentvolumes/x'' ''EROFS'')
   \<and> files (snd (createVolume test_provisioner env_read_only ''efs/persistentvolumes/x'' None world0))
        ''efs/persistentvolumes/x''
       = Some \<lparr>is_dir = True, mode = 493, owner = 0, group = 0\<rparr>"
  by code_simp

section \<open>Provision and Delete\<close>

text \<open>
  C10.  Every volume that \<open>Provision\<close> returns has the storage class name \<open>efs-sc\<close>,
  whatever the name of the storage class in the request.
\<close>

theorem Provision_storage_class_name:
  assumes "Provision p e options w = (Inr pv, w')"
  shows "PV_StorageClassName pv = ''efs-sc''"
  using assms
  by (auto simp: Provision_def Let_def split: if_splits sum.splits prod.splits option.splits)

theorem Provision_storage_class_name_witness:
  "SC_Name (StorageClass (test_options\<lparr>StorageClass := (StorageClass test_options)\<lparr>SC_Name := ''efs''\<rparr>\<rparr>)) = ''efs''
   \<and> fst (Provision test_provisioner env0
             (test_options\<lparr>StorageClass := (StorageClass test_options)\<lparr>SC_Name := ''efs''\<rparr>\<rparr>) world0)
       = Inr test_pv
   \<and> PV_StorageClassName test_pv = ''efs-sc''"
proof -
  let ?opts = "test_options\<lparr>StorageClass := (StorageClass test_options)\<lparr>SC_Name := ''efs''\<rparr>\<rparr>"
  have f: "fst (Provision test_provisioner env0 ?opts world0) = Inr test_pv"
    by code_simp
  then have h: "Provision test_provisioner env0 ?opts world0
                  = (Inr test_pv, snd (Provision test_provisioner env0 ?opts world0))"
    by (metis prod.collapse)
  show ?thesis using Provision_storage_class_name [OF h] f by simp
qed

text \<open>
  C8.  \<open>Delete\<close> calls the allocator's \<open>Release\<close> first, for every volume, whatever its
  handle.  When the release fails, \<open>Delete\<close> returns that error and has made no other call;
  when the release succeeds and the handle is rejected, \<open>Delete\<close> returns the decoding error,
  calls no removal and leaves the files as they were.
\<close>

theorem Delete_releases_first:
  "(\<exists>evs. trace (snd (Delete p e volume w)) = trace w @ CallRelease volume # evs)
   \<and> (\<forall>err. Release (allocator p) volume = Some err \<longrightarrow>
          Delete p e volume w = (Some err, w\<lparr>trace := trace w @ [CallRelease volume]\<rparr>))
   \<and> (\<forall>err. Release (allocator p) volume = None
            \<and> getLocalPathToDelete p (PV_CSI volume) = Inl err \<longrightarrow>
          Delete p e volume w = (Some err, w\<lparr>trace := trace w @ [CallRelease volume]\<rparr>))"
  by (auto simp: Delete_def Let_def log_call_def os_RemoveAll_trace split: option.splits sum.splits)

theorem Delete_releases_first_witness:
  "Release (allocator (test_provisioner\<lparr>allocator := failing_allocator\<rparr>)) test_pv
     = Some (AllocatorError ''release failed'')
   \<and> Delete (test_provisioner\<lparr>allocator := failing_allocator\<rparr>) env0 test_pv world_vol
     = (Some (AllocatorError ''release failed''), world_vol\<lparr>trace := trace world_vol @ [CallRelease test_pv]\<rparr>)
   \<and> Release (allocator test_provisioner) (test_pv\<lparr>PV_CSI := Some \<lparr>Driver = efsCsiDriverName, VolumeHandle = ''fs-12345''\<rparr>\<rparr>) = None
   \<and> getLocalPathToDelete test_provisioner
         (PV_CSI (test_pv\<lparr>PV_CSI := Some \<lparr>Driver = efsCsiDriverName, VolumeHandle = ''fs-12345''\<rparr>\<rparr>))
       = Inl (InvalidHandleFormat ''fs-12345'')
   \<and> Delete test_provisioner env0
         (test_pv\<lparr>PV_CSI := Some \<lparr>Driver = efsCsiDriverName, VolumeHandle = ''fs-12345''\<rparr>\<rparr>) world_vol
       = (Some (InvalidHandleFormat ''fs-12345''),
          world_vol\<lparr>trace := trace world_vol
             @ [CallRelease (test_pv\<lparr>PV_CSI := Some \<lparr>Driver = efsCsiDriverName, VolumeHandle = ''fs-12345''\<rparr>\<rparr>)]\<rparr>)"
proof -
  let ?bad = "test_pv\<lparr>PV_CSI := Some \<lparr>Driver = efsCsiDriverName, VolumeHandle = ''fs-12345''\<rparr>\<rparr>"
  have a: "Release (allocator (test_provisioner\<lparr>allocator := failing_allocator\<rparr>)) test_pv
             = Some (AllocatorError ''release failed'')"
    by (simp add: failing_allocator_def)
  have b: "Release (allocator test_provisioner) ?bad = None"
    by (simp add: test_provisioner_def sample_allocator_def)
  have c: "getLocalPathToDelete test_provisioner (PV_CSI ?bad) = Inl (InvalidHandleFormat ''fs-12345'')"
    by (simp add: getLocalPathToDelete_def Split.simps)
  show ?thesis
    using Delete_releases_first [of "test_provisioner\<lparr>allocator := failing_allocator\<rparr>" env0 test_pv world_vol]
      Delete_releases_first [of test_provisioner env0 ?bad world_vol] a b c
    by simp
qed

text \<open>
  C7.  For a volume whose release succeeds and whose handle decodes to \<open>path\<close>: when nothing
  is at \<open>path\<close>, \<open>Delete\<close> succeeds and changes no file.  When something is at \<open>path\<close>
  and the system does not refuse the removal, \<open>Delete\<close> succeeds, and afterwards nothing is at
  \<open>path\<close> or below it while every other path, the ancestors of \<open>path\<close> among them, is as
  before; when the system refuses the removal, \<open>Delete\<close> returns that error.  So a successful
  \<open>Delete\<close> of an existing \<open>path\<close> has removed it with all below it and nothing else, and
  after a successful \<open>Delete\<close> a second one succeeds too.
\<close>

theorem Delete_removes_directory:
  assumes "Release (allocator p) volume = None"
    and "getLocalPathToDelete p (PV_CSI volume) = Inr path"
  shows "(files w path = None \<longrightarrow>
            Delete p e volume w = (None, w\<lparr>trace := trace w @ [CallRelease volume, CallRemoveAll path]\<rparr>))
         \<and> (files w path \<noteq> None \<and> fault e (CallRemoveAll path) = None \<longrightarrow>
               Delete p e volume w
                 = (None, w\<lparr>files := (\<lambda>q. if below path q then None else files w q),
                             trace := trace w @ [CallRelease volume, CallRemoveAll path]\<rparr>))
         \<and> (\<forall>err. files w path \<noteq> None \<and> fault e (CallRemoveAll path) = Some err \<longrightarrow>
               Delete p e volume w
                 = (Some err, w\<lparr>trace := trace w @ [CallRelease volume, CallRemoveAll path]\<rparr>))
         \<and> (\<forall>w'. files w path \<noteq> None \<and> Delete p e volume w = (None, w') \<longrightarrow>
               (\<forall>q. below path q \<longrightarrow> files w' q = None)
               \<and> (\<forall>q. \<not> below path q \<longrightarrow> files w' q = files w q)
               \<and> (\<forall>q. HasPrefix path (q @ ''/'') \<longrightarrow> files w' q = files w q))
         \<and> (\<forall>w'. Delete p e volume w = (None, w') \<longrightarrow>
               Delete p e volume w' = (None, w'\<lparr>trace := trace w' @ [CallRelease volume, CallRemoveAll path]\<rparr>))"
proof -
  let ?w1 = "log_call (CallRelease volume) w"
  have D: "\<And>w. Delete p e volume w = os_RemoveAll e path (log_call (CallRelease volume) w)"
    using assms by (simp add: Delete_def Let_def)
  have f1: "\<And>w. files (log_call (CallRelease volume) w) = files w" by (simp add: log_call_def)
  have absent: "\<And>w. files w path = None \<Longrightarrow>
      Delete p e volume w = (None, w\<lparr>trace := trace w @ [CallRelease volume, CallRemoveAll path]\<rparr>)"
    by (simp add: D os_RemoveAll_absent f1) (simp add: log_call_def)
  have cleared: "files w path \<noteq> None \<Longrightarrow> fault e (CallRemoveAll path) = None \<Longrightarrow>
      Delete p e volume w
        = (None, w\<lparr>files := (\<lambda>q. if below path q then None else files w q),
                    trace := trace w @ [CallRelease volume, CallRemoveAll path]\<rparr>)"
    by (auto simp: D os_RemoveAll_def log_call_def Let_def cong: if_cong)
  have refused: "\<And>err. files w path \<noteq> None \<Longrightarrow> fault e (CallRemoveAll path) = Some err \<Longrightarrow>
      Delete p e volume w
        = (Some err, w\<lparr>trace := trace w @ [CallRelease volume, CallRemoveAll path]\<rparr>)"
    by (auto simp: D os_RemoveAll_def log_call_def Let_def)
  have gone: "\<And>w'. Delete p e volume w = (None, w') \<Longrightarrow> files w' path = None"
  proof -
    fix w' assume d: "Delete p e volume w = (None, w')"
    show "files w' path = None"
    proof (cases "files w path")
      case None
      with absent [of w] d show ?thesis by auto
    next
      case (Some n)
      with d show ?thesis
        using os_RemoveAll_None [of e path ?w1 w' path] by (simp add: D f1 below_self)
    qed
  qed
  have removed: "\<And>w' q. files w path \<noteq> None \<Longrightarrow> Delete p e volume w = (None, w') \<Longrightarrow>
      below path q \<Longrightarrow> files w' q = None"
    using os_RemoveAll_None [of e path ?w1] by (simp add: D f1)
  have kept: "\<And>w' q. Delete p e volume w = (None, w') \<Longrightarrow> \<not> below path q \<Longrightarrow> files w' q = files w q"
  proof -
    fix w' q assume d: "Delete p e volume w = (None, w')" and nb: "\<not> below path q"
    from d have "w' = snd (os_RemoveAll e path ?w1)" by (simp add: D)
    with nb show "files w' q = files w q" by (simp add: os_RemoveAll_kept f1)
  qed
  have idem: "\<And>w'. Delete p e volume w = (None, w') \<Longrightarrow>
      Delete p e volume w' = (None, w'\<lparr>trace := trace w' @ [CallRelease volume, CallRemoveAll path]\<rparr>)"
    using gone by (rule absent)
  have anc: "\<And>w' q. Delete p e volume w = (None, w') \<Longrightarrow> HasPrefix path (q @ ''/'') \<Longrightarrow>
      files w' q = files w q"
    using kept not_below_ancestor by blast
  show ?thesis
  proof (intro conjI allI impI)
    show "files w path = None \<Longrightarrow>
            Delete p e volume w = (None, w\<lparr>trace := trace w @ [CallRelease volume, CallRemoveAll path]\<rparr>)"
      by (rule absent)
    show "files w path \<noteq> None \<and> fault e (CallRemoveAll path) = None \<Longrightarrow>
            Delete p e volume w
              = (None, w\<lparr>files := (\<lambda>q. if below path q then None else files w q),
                          trace := trace w @ [CallRelease volume, CallRemoveAll path]\<rparr>)"
      using cleared by blast
    show "\<And>err. files w path \<noteq> None \<and> fault e (CallRemoveAll path) = Some err \<Longrightarrow>
            Delete p e volume w
              = (Some err, w\<lparr>trace := trace w @ [CallRelease volume, CallRemoveAll path]\<rparr>)"
      using refused by blast
  qed (use removed kept anc idem in blast)+
qed

theorem Delete_removes_directory_witness:
  "Release (allocator test_provisioner) test_pv = None
   \<and> getLocalPathToDelete test_provisioner (PV_CSI test_pv)
       = Inr ''efs/persistentvolumes/my-ns-my-pvc-pvc-123456''
   \<and> files world_vol ''efs/persistentvolumes/my-ns-my-pvc-pvc-123456'' \<noteq> None
   \<and> fault env0 (CallRemoveAll ''efs/persistentvolumes/my-ns-my-pvc-pvc-123456'') = None
   \<and> fst (Delete test_provisioner env0 test_pv world_vol) = None
   \<and> files (snd (Delete test_provisioner env0 test_pv world_vol))
        ''efs/persistentvolumes/my-ns-my-pvc-pvc-123456'' = None
   \<and> files (snd (Delete test_provisioner env0 test_pv world_vol))
        ''efs/persistentvolumes/my-ns-my-pvc-pvc-123456/data'' = None
   \<and> files (snd (Delete test_provisioner env0 test_pv world_vol)) ''efs/persistentvolumes''
       = files world_vol ''efs/persistentvolumes''
   \<and> files world_vol ''efs/persistentvolumes'' \<noteq> None
   \<and> fst (Delete test_provisioner env0 test_pv (snd (Delete test_provisioner env0 test_pv world_vol))) = None
   \<and> fault env_read_only (CallRemoveAll ''efs/persistentvolumes/my-ns-my-pvc-pvc-123456'')
       = Some (PathError ''unlinkat'' ''efs/persistentvolumes/my-ns-my-pvc-pvc-123456'' ''EROFS'')
   \<and> fst (Delete test_provisioner env_read_only test_pv world_vol)
       = Some (PathError ''unlinkat'' ''efs/persistentvolumes/my-ns-my-pvc-pvc-123456'' ''EROFS'')
   \<and> files world0 ''efs/persistentvolumes/my-ns-my-pvc-pvc-123456'' = None
   \<and> fst (Delete test_provisioner env0 test_pv world0) = None"
proof -
  let ?path = "''efs/persistentvolumes/my-ns-my-pvc-pvc-123456''"
  let ?D = "Delete test_provisioner env0 test_pv world_vol"
  have a: "Release (allocator test_provisioner) test_pv = None"
    by (simp add: test_provisioner_def sample_allocator_def)
  have b: "getLocalPathToDelete test_provisioner (PV_CSI test_pv) = Inr ?path"
    by code_simp
  have c: "files world_vol ?path \<noteq> None" by (simp add: world_vol_def)
  have c': "files world_vol ''efs/persistentvolumes'' \<noteq> None" by (simp add: world_vol_def)
  have c0: "files world0 ?path = None" by (simp add: world0_def)
  have fl: "fault env0 (CallRemoveAll ?path) = None" by (simp add: env0_def)
  have fr: "fault env_read_only (CallRemoveAll ?path) = Some (PathError ''unlinkat'' ?path ''EROFS'')"
    by (simp add: env_read_only_def env0_def)
  note T = Delete_removes_directory [OF a b, of world_vol env0]
  note Tr = Delete_removes_directory [OF a b, of world_vol env_read_only]
  note T0 = Delete_removes_directory [OF a b, of world0 env0, THEN conjunct1]
  note T2 = T [THEN conjunct2, THEN conjunct1]
  note T3 = Tr [THEN conjunct2, THEN conjunct2, THEN conjunct1]
  note T4 = T [THEN conjunct2, THEN conjunct2, THEN conjunct2, THEN conjunct1]
  note T5 = T [THEN conjunct2, THEN conjunct2, THEN conjunct2, THEN conjunct2]
  from T2 c fl have "\<exists>w'. ?D = (None, w')" by blast
  then have f: "fst ?D = None" by auto
  then have h: "?D = (None, snd ?D)" by (metis prod.collapse)
  have b1: "below ?path ?path" by (rule below_self)
  have b2: "below ?path ''efs/persistentvolumes/my-ns-my-pvc-pvc-123456/data''"
    by (simp add: below_def HasPrefix_def)
  have b3: "HasPrefix ?path (''efs/persistentvolumes'' @ ''/'')"
    by (simp add: HasPrefix_def)
  from T4 c h b1 have r1: "files (snd ?D) ?path = None" by blast
  from T4 c h b2 have r2: "files (snd ?D) ''efs/persistentvolumes/my-ns-my-pvc-pvc-123456/data'' = None"
    by blast
  from T4 c h b3 have r3: "files (snd ?D) ''efs/persistentvolumes'' = files world_vol ''efs/persistentvolumes''"
    by blast
  from T5 h have r4: "fst (Delete test_provisioner env0 test_pv (snd ?D)) = None"
    by (metis fst_conv)
  from T3 c fr have "\<exists>w'. Delete test_provisioner env_read_only test_pv world_vol
      = (Some (PathError ''unlinkat'' ?path ''EROFS''), w')" by blast
  then have r6: "fst (Delete test_provisioner env_read_only test_pv world_vol)
      = Some (PathError ''unlinkat'' ?path ''EROFS'')" by auto
  from T0 c0 have r5: "fst (Delete test_provisioner env0 test_pv world0) = None"
    by (metis fst_conv)
  show ?thesis using a b c fl f r1 r2 r3 c' r4 fr r6 c0 r5 by simp
qed

subsection \<open>The gidAllocate parameter\<close>

lemma scan_parameters_bad:
  assumes "\<exists>v\<in>set (gidAllocate_texts ul kvs). ParseBool v = None"
  shows "\<exists>v k. scan_parameters ul kvs g = Inl (InvalidParameterValue v k)"
  using assms
proof (induction kvs arbitrary: g)
  case Nil
  then show ?case by (simp add: gidAllocate_texts_def)
next
  case (Cons kv kvs)
  obtain k v where kv: "kv = (k, v)" by (cases kv)
  show ?case
  proof (cases "ToLower ul k = ''gidallocate''")
    case True
    show ?thesis
    proof (cases "ParseBool v")
      case None
      with True kv show ?thesis by simp
    next
      case (Some b)
      with Cons.prems True kv have "\<exists>v\<in>set (gidAllocate_texts ul kvs). ParseBool v = None"
        by (auto simp: gidAllocate_texts_def)
      from Cons.IH [OF this, of b] True Some kv show ?thesis by simp
    qed
  next
    case False
    with Cons.prems kv have "\<exists>v\<in>set (gidAllocate_texts ul kvs). ParseBool v = None"
      by (auto simp: gidAllocate_texts_def)
    from Cons.IH [OF this, of g] False kv show ?thesis by simp
  qed
qed

lemma scan_parameters_ok:
  assumes "\<forall>v\<in>set (gidAllocate_texts ul kvs). ParseBool v \<noteq> None"
  shows "scan_parameters ul kvs g =
           Inr (if gidAllocate_texts ul kvs = [] then g
                else ParseBool (last (gidAllocate_texts ul kvs)) = Some True)"
  using assms
proof (induction kvs arbitrary: g)
  case Nil
  then show ?case by (simp add: gidAllocate_texts_def)
next
  case (Cons kv kvs)
  obtain k v where kv: "kv = (k, v)" by (cases kv)
  show ?case
  proof (cases "ToLower ul k = ''gidallocate''")
    case True
    with Cons.prems kv obtain b where b: "ParseBool v = Some b"
      by (auto simp: gidAllocate_texts_def)
    from Cons.prems True kv have rest: "\<forall>v\<in>set (gidAllocate_texts ul kvs). ParseBool v \<noteq> None"
      by (auto simp: gidAllocate_texts_def)
    have texts: "gidAllocate_texts ul (kv # kvs) = v # gidAllocate_texts ul kvs"
      using True kv by (simp add: gidAllocate_texts_def)
    from Cons.IH [OF rest, of b] True b kv texts show ?thesis by auto
  next
    case False
    with Cons.prems kv have rest: "\<forall>v\<in>set (gidAllocate_texts ul kvs). ParseBool v \<noteq> None"
      by (auto simp: gidAllocate_texts_def)
    have texts: "gidAllocate_texts ul (kv # kvs) = gidAllocate_texts ul kvs"
      using False kv by (simp add: gidAllocate_texts_def)
    from Cons.IH [OF rest, of g] False kv texts show ?thesis by simp
  qed
qed

lemma os_MkdirAll_trace: "trace (snd (os_MkdirAll e p perm w)) = trace w @ [CallMkdirAll p perm]"
  by (auto simp: os_MkdirAll_def log_call_def Let_def split: option.splits sum.splits)

lemma os_Chmod_trace: "trace (snd (os_Chmod e p perm w)) = trace w @ [CallChmod p perm]"
  by (auto simp: os_Chmod_def log_call_def Let_def split: option.splits)

lemma os_Chown_trace: "trace (snd (os_Chown e p u g w)) = trace w @ [CallChown p u g]"
  by (auto simp: os_Chown_def log_call_def Let_def split: option.splits)

lemma createVolume_trace:
  "\<exists>evs. trace (snd (createVolume p e path gid_opt w)) = trace w @ evs \<and> (\<forall>c\<in>set evs. is_os_call c)"
proof -
  let ?perm = "if gid_opt \<noteq> None then 505 OR ModeSetgid else (511 :: FileMode)"
  obtain r1 w1 where mk: "os_MkdirAll e path ?perm w = (r1, w1)" by (cases "os_MkdirAll e path ?perm w")
  obtain r2 w2 where ch: "os_Chmod e path ?perm w1 = (r2, w2)" by (cases "os_Chmod e path ?perm w1")
  obtain r3 w3 where co: "os_Chown e path (os_Getuid e) (the gid_opt) w2 = (r3, w3)"
    by (cases "os_Chown e path (os_Getuid e) (the gid_opt) w2")
  from os_MkdirAll_trace [of e path ?perm w] mk
  have t1: "trace w1 = trace w @ [CallMkdirAll path ?perm]" by simp
  from os_Chmod_trace [of e path ?perm w1] ch t1
  have t2: "trace w2 = trace w @ [CallMkdirAll path ?perm, CallChmod path ?perm]" by simp
  from os_Chown_trace [of e path "os_Getuid e" "the gid_opt" w2] co t2
  have t3: "trace w3 = trace w @ [CallMkdirAll path ?perm, CallChmod path ?perm,
                                  CallChown path (os_Getuid e) (the gid_opt)]" by simp
  have "snd (createVolume p e path gid_opt w) = w1
        \<or> snd (createVolume p e path gid_opt w) = snd (os_RemoveAll e path w2)
        \<or> snd (createVolume p e path gid_opt w) = w2
        \<or> snd (createVolume p e path gid_opt w) = snd (os_RemoveAll e path w3)
        \<or> snd (createVolume p e path gid_opt w) = w3"
    using mk ch co by (auto simp: createVolume_def Let_def split: option.splits)
  then show ?thesis
    using t1 t2 t3 by (auto simp: os_RemoveAll_trace)
qed

text \<open>
  C9 (amended).  For a request whose claim has no selector: when one of the texts given for
  \<open>gidAllocate\<close> is no boolean, \<open>Provision\<close> fails with the invalid-parameter error and the
  world is as before (no call to the allocator, no directory).  Otherwise the calls of
  \<open>Provision\<close> are: one call of \<open>AllocateNext\<close>, with the request as it came, exactly when
  the parameter is absent or its (last) text reads true; then only calls to the operating
  system.  The keys are compared after \<open>strings.ToLower\<close>, whatever the Unicode mapping is.
\<close>

theorem Provision_gid_allocation:
  assumes "PVC_Selector (PVC options) = None"
  shows "((\<exists>v\<in>set (gidAllocate_texts (unicode_lower e) (SC_Parameters (StorageClass options))). ParseBool v = None) \<longrightarrow>
            (\<exists>v k. Provision p e options w = (Inl (InvalidParameterValue v k), w)))
         \<and> ((\<forall>v\<in>set (gidAllocate_texts (unicode_lower e) (SC_Parameters (StorageClass options))). ParseBool v \<noteq> None) \<longrightarrow>
            (\<exists>evs. trace (snd (Provision p e options w))
                      = trace w
                        @ (if gidAllocate_texts (unicode_lower e) (SC_Parameters (StorageClass options)) = []
                              \<or> ParseBool (last (gidAllocate_texts (unicode_lower e) (SC_Parameters (StorageClass options)))) = Some True
                           then [CallAllocateNext options] else [])
                        @ evs
                    \<and> (\<forall>c\<in>set evs. is_os_call c)))"
proof (intro conjI impI)
  assume "\<exists>v\<in>set (gidAllocate_texts (unicode_lower e) (SC_Parameters (StorageClass options))). ParseBool v = None"
  from scan_parameters_bad [OF this, of True] assms
  show "\<exists>v k. Provision p e options w = (Inl (InvalidParameterValue v k), w)"
    by (auto simp: Provision_def)
next
  let ?texts = "gidAllocate_texts (unicode_lower e) (SC_Parameters (StorageClass options))"
  let ?g = "?texts = [] \<or> ParseBool (last ?texts) = Some True"
  assume "\<forall>v\<in>set ?texts. ParseBool v \<noteq> None"
  from scan_parameters_ok [OF this, of True]
  have scan: "scan_parameters (unicode_lower e) (SC_Parameters (StorageClass options)) True = Inr ?g" by auto
  show "\<exists>evs. trace (snd (Provision p e options w))
                 = trace w @ (if ?g then [CallAllocateNext options] else []) @ evs
               \<and> (\<forall>c\<in>set evs. is_os_call c)"
  proof (cases ?g)
    case False
    obtain r w2 where cv: "createVolume p e (getLocalPath p options) None w = (r, w2)"
      by (cases "createVolume p e (getLocalPath p options) None w")
    from assms scan False cv have "snd (Provision p e options w) = w2"
      by (auto simp: Provision_def Let_def split: option.splits)
    with createVolume_trace [of p e "getLocalPath p options" None w] cv False
    show ?thesis by auto
  next
    case True
    let ?w1 = "log_call (CallAllocateNext options) w"
    show ?thesis
    proof (cases "AllocateNext (allocator p) options")
      case (Inl err)
      with assms scan True have "snd (Provision p e options w) = ?w1"
        by (simp add: Provision_def)
      with True show ?thesis by (simp add: log_call_def)
    next
      case (Inr allocate)
      obtain r w2 where cv: "createVolume p e (getLocalPath p options) (Some allocate) ?w1 = (r, w2)"
        by (cases "createVolume p e (getLocalPath p options) (Some allocate) ?w1")
      from assms scan True Inr cv have "snd (Provision p e options w) = w2"
        by (auto simp: Provision_def Let_def split: option.splits)
      with createVolume_trace [of p e "getLocalPath p options" "Some allocate" ?w1] cv True
      show ?thesis by (auto simp: log_call_def)
    qed
  qed
qed

theorem Provision_gid_allocation_witness:
  "PVC_Selector (PVC opts_bad) = None
   \<and> (\<exists>v\<in>set (gidAllocate_texts (unicode_lower env0) (SC_Parameters (StorageClass opts_bad))). ParseBool v = None)
   \<and> fst (Provision test_provisioner env0 opts_bad world0) = Inl (InvalidParameterValue ''yes'' ''gidAllocate'')
   \<and> snd (Provision test_provisioner env0 opts_bad world0) = world0
   \<and> gidAllocate_texts (unicode_lower env0) (SC_Parameters (StorageClass test_options)) = [''false'']
   \<and> CallAllocateNext test_options \<notin> set (trace (snd (Provision test_provisioner env0 test_options world0)))
   \<and> gidAllocate_texts (unicode_lower env0) (SC_Parameters (StorageClass opts_default)) = []
   \<and> hd (trace (snd (Provision test_provisioner env0 opts_default world0))) = CallAllocateNext opts_default
   \<and> gidAllocate_texts (unicode_lower env_unicode) (SC_Parameters (StorageClass opts_dotted_I)) = [''false'']
   \<and> CallAllocateNext opts_dotted_I
         \<notin> set (trace (snd (Provision test_provisioner env_unicode opts_dotted_I world0)))"
proof -
  have s1: "PVC_Selector (PVC opts_bad) = None" by (simp add: opts_bad_def test_options_def)
  have s2: "PVC_Selector (PVC test_options) = None" by (simp add: test_options_def)
  have s3: "PVC_Selector (PVC opts_default) = None" by (simp add: opts_default_def test_options_def)
  have b1: "\<exists>v\<in>set (gidAllocate_texts (unicode_lower env0) (SC_Parameters (StorageClass opts_bad))). ParseBool v = None"
    by code_simp
  have b2: "fst (Provision test_provisioner env0 opts_bad world0) = Inl (InvalidParameterValue ''yes'' ''gidAllocate'')"
    by code_simp
  have t2: "gidAllocate_texts (unicode_lower env0) (SC_Parameters (StorageClass test_options)) = [''false'']"
    by code_simp
  have p2: "ParseBool ''false'' = Some False" by (simp add: ParseBool_def)
  have t3: "gidAllocate_texts (unicode_lower env0) (SC_Parameters (StorageClass opts_default)) = []"
    by code_simp
  have w0: "trace world0 = []" by (simp add: world0_def)
  from Provision_gid_allocation [OF s1, where p = test_provisioner and e = env0 and w = world0] b1
  have r1: "snd (Provision test_provisioner env0 opts_bad world0) = world0" by auto
  from Provision_gid_allocation [OF s2, where p = test_provisioner and e = env0 and w = world0] t2 p2 w0
  have r2: "CallAllocateNext test_options \<notin> set (trace (snd (Provision test_provisioner env0 test_options world0)))"
    by auto
  from Provision_gid_allocation [OF s3, where p = test_provisioner and e = env0 and w = world0] t3 w0
  have r3: "hd (trace (snd (Provision test_provisioner env0 opts_default world0))) = CallAllocateNext opts_default"
    by auto
  have s4: "PVC_Selector (PVC opts_dotted_I) = None" by (simp add: opts_dotted_I_def test_options_def)
  have t4: "gidAllocate_texts (unicode_lower env_unicode) (SC_Parameters (StorageClass opts_dotted_I)) = [''false'']"
    by code_simp
  from Provision_gid_allocation [OF s4, where p = test_provisioner and e = env_unicode and w = world0] t4 p2 w0
  have r4: "CallAllocateNext opts_dotted_I
              \<notin> set (trace (snd (Provision test_provisioner env_unicode opts_dotted_I world0)))"
    by auto
  show ?thesis using s1 b1 b2 r1 t2 r2 t3 r3 t4 r4 by simp
qed

text \<open>
  C9 as stated fails for a claim with a selector: such a request is rejected before the
  parameters are read.  Without the parameter (which would resolve to true) no call of
  \<open>AllocateNext\<close> is made, and with the text \<open>yes\<close>, which is no boolean, the error is the
  selector error and not the invalid-parameter error.
\<close>

theorem Provision_selector_first:
  "gidAllocate_texts (unicode_lower env0) (SC_Parameters (StorageClass opts_selector)) = []
   \<and> Provision test_provisioner env0 opts_selector world0 = (Inl SelectorNotSupported, world0)
   \<and> trace world0 = []
   \<and> gidAllocate_texts (unicode_lower env0) (SC_Parameters (StorageClass opts_selector_bad)) = [''yes'']
   \<and> ParseBool ''yes'' = None
   \<and> Provision test_provisioner env0 opts_selector_bad world0 = (Inl SelectorNotSupported, world0)"
proof -
  have t1: "gidAllocate_texts (unicode_lower env0) (SC_Parameters (StorageClass opts_selector)) = []"
    by code_simp
  have t2: "gidAllocate_texts (unicode_lower env0) (SC_Parameters (StorageClass opts_selector_bad)) = [''yes'']"
    by code_simp
  have p1: "Provision test_provisioner env0 opts_selector world0 = (Inl SelectorNotSupported, world0)"
    by (simp add: Provision_def opts_selector_def)
  have p2: "Provision test_provisioner env0 opts_selector_bad world0 = (Inl SelectorNotSupported, world0)"
    by (simp add: Provision_def opts_selector_bad_def)
  have pb: "ParseBool ''yes'' = None" by (simp add: ParseBool_def)
  show ?thesis using t1 t2 p1 p2 pb by (simp add: world0_def)
qed

section \<open>The round trip of the volume handle\<close>

subsection \<open>How Clean reads a path element by element\<close>

text \<open>
  The loop of \<open>Clean\<close> looks ahead only as far as the next slash.  So what it does with a
  piece of path that is followed by a slash does not depend on what comes after that slash:
  the buffer after the piece is the buffer the loop leaves when the path ends there.
\<close>

lemma takeWhile_before_slash:
  "takeWhile (\<lambda>x. x \<noteq> CHR ''/'') (xs @ CHR ''/'' # rest) = takeWhile (\<lambda>x. x \<noteq> CHR ''/'') xs"
  by (induction xs) auto

lemma dropWhile_before_slash:
  "dropWhile (\<lambda>x. x \<noteq> CHR ''/'') (xs @ CHR ''/'' # rest)
     = dropWhile (\<lambda>x. x \<noteq> CHR ''/'') xs @ CHR ''/'' # rest"
  by (induction xs) auto

lemma clean_loop_slash: "clean_loop rooted (CHR ''/'' # cs) out dd = clean_loop rooted cs out dd"
  by (simp add: clean_loop.simps(2))

lemma clean_loop_elem:
  assumes "c \<noteq> CHR ''/''"
    and "\<not> (c = CHR ''.'' \<and> (cs = [] \<or> hd cs = CHR ''/''))"
    and "\<not> (c = CHR ''.'' \<and> hd cs = CHR ''.'' \<and> (tl cs = [] \<or> hd (tl cs) = CHR ''/''))"
  shows "clean_loop rooted (c # cs) out dd
           = clean_loop rooted (dropWhile (\<lambda>x. x \<noteq> CHR ''/'') (c # cs))
               ((if (rooted \<and> length out \<noteq> 1) \<or> (\<not> rooted \<and> length out \<noteq> 0) then out @ ''/'' else out)
                  @ takeWhile (\<lambda>x. x \<noteq> CHR ''/'') (c # cs))
               dd"
  using assms by (subst clean_loop.simps(2)) (simp only: if_False)

lemma clean_loop_segment:
  "\<exists>dd'. (rooted \<longrightarrow> dd' = dd)
     \<and> (\<forall>rest. clean_loop rooted (x @ CHR ''/'' # rest) out dd
                 = clean_loop rooted rest (clean_loop rooted x out dd) dd')"
proof (induction rooted x out dd rule: clean_loop.induct)
  case (1 rooted out dotdot)
  show ?case by (rule exI [of _ dotdot]) (simp add: clean_loop_slash)
next
  case (2 rooted c cs out dotdot)
  let ?dot = "c = CHR ''.'' \<and> (cs = [] \<or> hd cs = CHR ''/'')"
  let ?dotdot = "c = CHR ''.'' \<and> hd cs = CHR ''.'' \<and> (tl cs = [] \<or> hd (tl cs) = CHR ''/'')"
  consider (slash) "c = CHR ''/''"
    | (dot) "c \<noteq> CHR ''/''" "?dot"
    | (pop) "c \<noteq> CHR ''/''" "\<not> ?dot" "?dotdot" "dotdot < length out"
    | (up) "c \<noteq> CHR ''/''" "\<not> ?dot" "?dotdot" "\<not> dotdot < length out" "\<not> rooted"
    | (stay) "c \<noteq> CHR ''/''" "\<not> ?dot" "?dotdot" "\<not> dotdot < length out" "rooted"
    | (elem) "c \<noteq> CHR ''/''" "\<not> ?dot" "\<not> ?dotdot"
    by blast
  then show ?case
  proof cases
    case slash
    from "2.IH"(1) [OF slash] obtain dd' where
      "rooted \<longrightarrow> dd' = dotdot"
      "\<forall>rest. clean_loop rooted (cs @ CHR ''/'' # rest) out dotdot
                = clean_loop rooted rest (clean_loop rooted cs out dotdot) dd'" by blast
    with slash show ?thesis by (auto simp: clean_loop.simps(2))
  next
    case dot
    from "2.IH"(2) [OF dot] obtain dd' where
      "rooted \<longrightarrow> dd' = dotdot"
      "\<forall>rest. clean_loop rooted (cs @ CHR ''/'' # rest) out dotdot
                = clean_loop rooted rest (clean_loop rooted cs out dotdot) dd'" by blast
    moreover from dot have "\<And>rest. c = CHR ''.'' \<and> hd (cs @ CHR ''/'' # rest) = CHR ''/''"
      by (cases cs) auto
    ultimately show ?thesis using dot by (auto simp: clean_loop.simps(2))
  next
    case pop
    from pop have ne: "cs \<noteq> []" by auto
    let ?out = "take (backtrack out dotdot (length out - 1)) out"
    from "2.IH"(3) [OF pop] obtain dd' where
      "rooted \<longrightarrow> dd' = dotdot"
      "\<forall>rest. clean_loop rooted (tl cs @ CHR ''/'' # rest) ?out dotdot
                = clean_loop rooted rest (clean_loop rooted (tl cs) ?out dotdot) dd'" by blast
    moreover from pop ne have "\<And>rest. hd (cs @ CHR ''/'' # rest) = CHR ''.''
        \<and> hd (tl (cs @ CHR ''/'' # rest)) = CHR ''/''
        \<and> tl (cs @ CHR ''/'' # rest) = tl cs @ CHR ''/'' # rest"
      by (cases cs; cases "tl cs") auto
    ultimately show ?thesis using pop ne by (auto simp: clean_loop.simps(2))
  next
    case up
    from up have ne: "cs \<noteq> []" by auto
    let ?out = "(if length out > 0 then out @ ''/'' else out) @ ''..''"
    from "2.IH"(4) [OF up] obtain dd' where
      "\<forall>rest. clean_loop rooted (tl cs @ CHR ''/'' # rest) ?out (length ?out)
                = clean_loop rooted rest (clean_loop rooted (tl cs) ?out (length ?out)) dd'" by blast
    moreover from up ne have "\<And>rest. hd (cs @ CHR ''/'' # rest) = CHR ''.''
        \<and> hd (tl (cs @ CHR ''/'' # rest)) = CHR ''/''
        \<and> tl (cs @ CHR ''/'' # rest) = tl cs @ CHR ''/'' # rest"
      by (cases cs; cases "tl cs") auto
    ultimately show ?thesis using up ne by (auto simp: clean_loop.simps(2))
  next
    case stay
    from stay have ne: "cs \<noteq> []" by auto
    from stay have nn: "\<not> \<not> rooted" by simp
    from "2.IH"(5) [OF stay(1-4) nn] obtain dd' where
      "rooted \<longrightarrow> dd' = dotdot"
      "\<forall>rest. clean_loop rooted (tl cs @ CHR ''/'' # rest) out dotdot
                = clean_loop rooted rest (clean_loop rooted (tl cs) out dotdot) dd'" by blast
    moreover from stay ne have "\<And>rest. hd (cs @ CHR ''/'' # rest) = CHR ''.''
        \<and> hd (tl (cs @ CHR ''/'' # rest)) = CHR ''/''
        \<and> tl (cs @ CHR ''/'' # rest) = tl cs @ CHR ''/'' # rest"
      by (cases cs; cases "tl cs") auto
    ultimately show ?thesis using stay ne by (auto simp: clean_loop.simps(2))
  next
    case elem
    let ?out = "(if (rooted \<and> length out \<noteq> 1) \<or> (\<not> rooted \<and> length out \<noteq> 0) then out @ ''/'' else out)
                  @ takeWhile (\<lambda>x. x \<noteq> CHR ''/'') (c # cs)"
    from "2.IH"(6) [OF elem] obtain dd' where dd':
      "rooted \<longrightarrow> dd' = dotdot"
      "\<forall>rest. clean_loop rooted (dropWhile (\<lambda>x. x \<noteq> CHR ''/'') (c # cs) @ CHR ''/'' # rest) ?out dotdot
                = clean_loop rooted rest
                    (clean_loop rooted (dropWhile (\<lambda>x. x \<noteq> CHR ''/'') (c # cs)) ?out dotdot) dd'"
      by blast
    have conds: "\<And>rest. \<not> (c = CHR ''.'' \<and> (cs @ CHR ''/'' # rest = [] \<or> hd (cs @ CHR ''/'' # rest) = CHR ''/''))
        \<and> \<not> (c = CHR ''.'' \<and> hd (cs @ CHR ''/'' # rest) = CHR ''.''
               \<and> (tl (cs @ CHR ''/'' # rest) = [] \<or> hd (tl (cs @ CHR ''/'' # rest)) = CHR ''/''))"
      using elem by (cases cs; cases "tl cs") auto
    have step: "\<And>rest. clean_loop rooted ((c # cs) @ CHR ''/'' # rest) out dotdot
        = clean_loop rooted (dropWhile (\<lambda>x. x \<noteq> CHR ''/'') (c # cs) @ CHR ''/'' # rest) ?out dotdot"
    proof -
      fix rest
      from conds [of rest]
      have c1: "\<not> (c = CHR ''.'' \<and> (cs @ CHR ''/'' # rest = [] \<or> hd (cs @ CHR ''/'' # rest) = CHR ''/''))"
        and c2: "\<not> (c = CHR ''.'' \<and> hd (cs @ CHR ''/'' # rest) = CHR ''.''
               \<and> (tl (cs @ CHR ''/'' # rest) = [] \<or> hd (tl (cs @ CHR ''/'' # rest)) = CHR ''/''))"
        by blast+
      have "clean_loop rooted ((c # cs) @ CHR ''/'' # rest) out dotdot
              = clean_loop rooted (c # (cs @ CHR ''/'' # rest)) out dotdot" by simp
      also note clean_loop_elem [OF elem(1) c1 c2]
      also have "dropWhile (\<lambda>x. x \<noteq> CHR ''/'') (c # (cs @ CHR ''/'' # rest))
                   = dropWhile (\<lambda>x. x \<noteq> CHR ''/'') (c # cs) @ CHR ''/'' # rest"
        using dropWhile_before_slash [of "c # cs" rest] by simp
      also have "takeWhile (\<lambda>x. x \<noteq> CHR ''/'') (c # (cs @ CHR ''/'' # rest))
                   = takeWhile (\<lambda>x. x \<noteq> CHR ''/'') (c # cs)"
        using takeWhile_before_slash [of "c # cs" rest] by simp
      finally show "clean_loop rooted ((c # cs) @ CHR ''/'' # rest) out dotdot
        = clean_loop rooted (dropWhile (\<lambda>x. x \<noteq> CHR ''/'') (c # cs) @ CHR ''/'' # rest) ?out dotdot" .
    qed
    have here: "clean_loop rooted (c # cs) out dotdot
        = clean_loop rooted (dropWhile (\<lambda>x. x \<noteq> CHR ''/'') (c # cs)) ?out dotdot"
      by (rule clean_loop_elem [OF elem])
    show ?thesis using dd' step here by auto
  qed
qed

lemma clean_loop_single:
  assumes "CHR ''/'' \<notin> set d" and "d \<noteq> []" and "d \<noteq> ''.''" and "d \<noteq> ''..''"
  shows "clean_loop rooted d out dd
           = (if (rooted \<and> length out \<noteq> 1) \<or> (\<not> rooted \<and> length out \<noteq> 0) then out @ ''/'' else out) @ d"
proof -
  from assms(2) obtain c cs where d: "d = c # cs" by (cases d) auto
  from assms(1) d have c: "c \<noteq> CHR ''/''" by auto
  have c1: "\<not> (c = CHR ''.'' \<and> (cs = [] \<or> hd cs = CHR ''/''))"
    using assms(1,3) d by (cases cs) auto
  have c2: "\<not> (c = CHR ''.'' \<and> hd cs = CHR ''.'' \<and> (tl cs = [] \<or> hd (tl cs) = CHR ''/''))"
    using assms(1,3,4) d by (cases cs; cases "tl cs") auto
  have tw: "takeWhile (\<lambda>x. x \<noteq> CHR ''/'') d = d" using assms(1) by (auto simp: takeWhile_eq_all_conv)
  have dw: "dropWhile (\<lambda>x. x \<noteq> CHR ''/'') d = []" using assms(1) by (auto simp: dropWhile_eq_Nil_conv)
  show ?thesis
    using clean_loop_elem [OF c c1 c2, of rooted out dd] tw dw unfolding d [symmetric] by simp
qed

lemma clean_loop_extra_slashes:
  "clean_loop rooted (x @ CHR ''/'' # CHR ''/'' # CHR ''/'' # CHR ''/'' # t @ CHR ''/'' # d) out dd
     = clean_loop rooted (x @ CHR ''/'' # CHR ''/'' # CHR ''/'' # CHR ''/'' # t @ CHR ''/'' # CHR ''/'' # CHR ''/'' # d) out dd"
proof -
  from clean_loop_segment [of rooted dd x out] obtain d1 where
    s1: "\<And>rest. clean_loop rooted (x @ CHR ''/'' # rest) out dd
                  = clean_loop rooted rest (clean_loop rooted x out dd) d1" by blast
  from clean_loop_segment [of rooted d1 t "clean_loop rooted x out dd"] obtain d2 where
    s2: "\<And>rest. clean_loop rooted (t @ CHR ''/'' # rest) (clean_loop rooted x out dd) d1
                  = clean_loop rooted rest (clean_loop rooted t (clean_loop rooted x out dd) d1) d2"
    by blast
  show ?thesis by (simp add: s1 s2 clean_loop_slash)
qed

lemma Split_two:
  assumes "sep \<notin> set a" and "sep \<notin> set b"
  shows "Split (a @ sep # b) sep = [a, b]"
proof -
  have tw: "takeWhile (\<lambda>x. x \<noteq> sep) (a @ sep # b) = a"
    using assms(1) by (induction a) auto
  have dw: "dropWhile (\<lambda>x. x \<noteq> sep) (a @ sep # b) = sep # b"
    using assms(1) by (induction a) auto
  show ?thesis using assms(2) by (simp add: Split_sep [of sep "a @ sep # b"] tw dw Split_no_sep)
qed

subsection \<open>Encoding and decoding\<close>

text \<open>
  C2 (amended).  Let the storage root be a normalized absolute path other than \<open>/\<close> (as
  the default \<open>/persistentvolumes\<close> is), let the file-system ID and the storage root contain
  no colon, and let namespace, claim name and volume name contain neither a colon nor a slash.
  Then decoding the handle that \<open>Provision\<close> builds, the file-system ID, a colon and the
  remote path, succeeds and returns exactly the local path of \<open>getLocalPath\<close>, for every
  mount point.
\<close>

theorem decode_round_trip:
  assumes fs: "CHR '':'' \<notin> set (fileSystemID p)"
    and root: "Clean (subPath p) = subPath p" "hd (subPath p) = CHR ''/''" "subPath p \<noteq> ''/''"
      "CHR '':'' \<notin> set (subPath p)"
    and names:
      "CHR '':'' \<notin> set (PVC_Namespace (PVC options) @ PVC_Name (PVC options) @ PVName options)"
      "CHR ''/'' \<notin> set (PVC_Namespace (PVC options) @ PVC_Name (PVC options) @ PVName options)"
  shows "getLocalPathToDelete p
           (Some \<lparr>Driver = efsCsiDriverName,
                   VolumeHandle = fileSystemID p @ '':'' @ getRemotePath p options\<rparr>)
         = Inr (getLocalPath p options)"
proof -
  let ?s = "subPath p" and ?d = "getDirectoryName p options" and ?mp = "mountPoint p"
  have s_ne: "?s \<noteq> []" using root(1) by (auto simp: Clean_def)
  then obtain t where s: "?s = CHR ''/'' # t" using root(2) by (cases ?s) auto
  with root(3) have t: "t \<noteq> []" by auto
  have O: "clean_loop True t ''/'' 1 = ?s"
    using root(1) s by (auto simp: Clean_def Let_def split: if_splits)
  have d_slash: "CHR ''/'' \<notin> set ?d" and d_colon: "CHR '':'' \<notin> set ?d"
    using names by (auto simp: getDirectoryName_def)
  have d_dash: "CHR ''-'' \<in> set ?d" by (simp add: getDirectoryName_def)
  then have d_ne: "?d \<noteq> []" "?d \<noteq> ''.''" "?d \<noteq> ''..''" by auto
  have len_s: "length ?s \<noteq> 1" using s t by (cases t) auto
  have single: "clean_loop True ?d ?s 1 = ?s @ ''/'' @ ?d"
    using clean_loop_single [OF d_slash d_ne, of True ?s 1] len_s by simp
  from clean_loop_segment [of True 1 t "''/''"]
  have seg: "\<And>rest. clean_loop True (t @ CHR ''/'' # rest) ''/'' 1 = clean_loop True rest ?s 1"
    using O by auto
  have prefix: "Join [''/'', ?s] = ?s"
    using s O s_ne by (simp add: Clean_def clean_loop_slash)
  have remote: "getRemotePath p options = ?s @ ''/'' @ ?d"
    using seg [of "CHR ''/'' # CHR ''/'' # ?d"] single s
    by (simp add: getRemotePath_def Clean_def clean_loop_slash)
  have clean_remote: "Clean (?s @ ''/'' @ ?d) = ?s @ ''/'' @ ?d"
    using seg [of ?d] single s by (simp add: Clean_def)
  have split: "Split (fileSystemID p @ '':'' @ getRemotePath p options) (CHR '':'')
                 = [fileSystemID p, ?s @ ''/'' @ ?d]"
    using Split_two [OF fs, of "?s @ ''/'' @ ?d"] root(4) d_colon by (simp add: remote)
  have inside: "HasPrefix (?s @ ''/'' @ ?d) (?s @ ''/'')" "?s @ ''/'' @ ?d \<noteq> ?s @ ''/''"
    using d_ne by (simp_all add: HasPrefix_def)
  have decode: "getLocalPathToDelete p
           (Some \<lparr>Driver = efsCsiDriverName,
                   VolumeHandle = fileSystemID p @ '':'' @ getRemotePath p options\<rparr>)
         = Inr (Join [?mp, ''/'', ?s @ ''/'' @ ?d])"
    using split inside clean_remote prefix by (simp add: getLocalPathToDelete_def Let_def)
  have "Join [?mp, ''/'', ?s @ ''/'' @ ?d] = getLocalPath p options"
  proof (cases "?mp = []")
    case True
    have "Join [?mp, ''/'', ?s @ ''/'' @ ?d] = ?s @ ''/'' @ ?d"
      using True seg [of ?d] single s by (simp add: Clean_def clean_loop_slash)
    moreover have "getLocalPath p options = getRemotePath p options"
      using True by (simp add: getLocalPath_def getRemotePath_def)
    ultimately show ?thesis by (simp add: remote)
  next
    case False
    then obtain m ms where mp: "?mp = m # ms" by (cases ?mp) auto
    have A: "strings_Join [?mp, ''/'', ?s @ ''/'' @ ?d] ''/''
               = ?mp @ CHR ''/'' # CHR ''/'' # CHR ''/'' # CHR ''/'' # t @ CHR ''/'' # ?d"
      using s by simp
    have B: "strings_Join [?mp, ''/'', ?s, ''/'', ?d] ''/''
               = ?mp @ CHR ''/'' # CHR ''/'' # CHR ''/'' # CHR ''/'' # t @ CHR ''/'' # CHR ''/'' # CHR ''/'' # ?d"
      using s by simp
    have "Clean (?mp @ CHR ''/'' # CHR ''/'' # CHR ''/'' # CHR ''/'' # t @ CHR ''/'' # ?d)
            = Clean (?mp @ CHR ''/'' # CHR ''/'' # CHR ''/'' # CHR ''/'' # t @ CHR ''/'' # CHR ''/'' # CHR ''/'' # ?d)"
      using clean_loop_extra_slashes [of True ms t ?d "''/''" 1]
        clean_loop_extra_slashes [of False "m # ms" t ?d "[]" 0]
      by (simp add: Clean_def mp)
    then show ?thesis
      using False unfolding getLocalPath_def Join.simps A B by simp
  qed
  with decode show ?thesis by simp
qed

theorem decode_round_trip_witness:
  "CHR '':'' \<notin> set (fileSystemID test_provisioner)
   \<and> Clean (subPath test_provisioner) = subPath test_provisioner
   \<and> hd (subPath test_provisioner) = CHR ''/''
   \<and> subPath test_provisioner \<noteq> ''/''
   \<and> CHR '':'' \<notin> set (subPath test_provisioner)
   \<and> CHR '':'' \<notin> set (PVC_Namespace (PVC test_options) @ PVC_Name (PVC test_options) @ PVName test_options)
   \<and> CHR ''/'' \<notin> set (PVC_Namespace (PVC test_options) @ PVC_Name (PVC test_options) @ PVName test_options)
   \<and> getLocalPath test_provisioner test_options = ''efs/persistentvolumes/my-ns-my-pvc-pvc-123456''
   \<and> getLocalPathToDelete test_provisioner
         (Some \<lparr>Driver = efsCsiDriverName,
                 VolumeHandle = fileSystemID test_provisioner @ '':'' @ getRemotePath test_provisioner test_options\<rparr>)
       = Inr ''efs/persistentvolumes/my-ns-my-pvc-pvc-123456''"
proof -
  have a: "CHR '':'' \<notin> set (fileSystemID test_provisioner)"
    by (simp add: test_provisioner_def)
  have b: "Clean (subPath test_provisioner) = subPath test_provisioner" by code_simp
  have c: "hd (subPath test_provisioner) = CHR ''/''" by (simp add: test_provisioner_def)
  have d: "subPath test_provisioner \<noteq> ''/''" by (simp add: test_provisioner_def)
  have e: "CHR '':'' \<notin> set (subPath test_provisioner)" by (simp add: test_provisioner_def)
  have f: "CHR '':'' \<notin> set (PVC_Namespace (PVC test_options) @ PVC_Name (PVC test_options) @ PVName test_options)"
    by (simp add: test_options_def)
  have g: "CHR ''/'' \<notin> set (PVC_Namespace (PVC test_options) @ PVC_Name (PVC test_options) @ PVName test_options)"
    by (simp add: test_options_def)
  have l: "getLocalPath test_provisioner test_options = ''efs/persistentvolumes/my-ns-my-pvc-pvc-123456''"
    by code_simp
  show ?thesis using decode_round_trip [OF a b c d e f g] a b c d e f g l by simp
qed

text \<open>
  C2 as stated fails: for the volume name \<open>pvc:1\<close> the handle has two colons, and decoding
  it fails with the invalid-handle error instead of returning the local path.
\<close>

theorem decode_round_trip_colon:
  "getLocalPathToDelete test_provisioner
     (Some \<lparr>Driver = efsCsiDriverName,
             VolumeHandle = fileSystemID test_provisioner @ '':''
               @ getRemotePath test_provisioner (test_options\<lparr>PVName := ''pvc:1''\<rparr>)\<rparr>)
     = Inl (InvalidHandleFormat ''fs-123456:/persistentvolumes/my-ns-my-pvc-pvc:1'')
   \<and> getLocalPath test_provisioner (test_options\<lparr>PVName := ''pvc:1''\<rparr>)
     = ''efs/persistentvolumes/my-ns-my-pvc-pvc:1''"
  by code_simp

end
